theory Spec2Isabelle
  imports Complex_Main "HOL-Library.Word" "HOL-Library.Sublist"
begin

section \<open>Custom-resource metrics of the operator SDK (package kubemetrics, metrics.go)\<close>

text \<open>
  The file under study is the adapter \<^verbatim>\<open>pkg/kube-metrics/metrics.go\<close>. Its four functions
  are embedded below: \<^verbatim>\<open>generateMetricFamilies\<close>, \<^verbatim>\<open>GetNamespacesForMetrics\<close>,
  \<^verbatim>\<open>isNamespaced\<close> and \<^verbatim>\<open>GenerateAndServeCRMetrics\<close>.

  Conventions of the embedding.
  \<^item> A Go string is a byte sequence, here a \<^typ>\<open>string\<close> (a list of 8-bit characters).
  \<^item> A Go function returning \<^verbatim>\<open>(T, error)\<close> returns a pair whose second component is an
    \<^typ>\<open>'e option\<close>; \<^term>\<open>None\<close> is Go's \<^verbatim>\<open>nil\<close> error.
  \<^item> A nil slice and an empty slice are both the empty list (the source only takes their
    length, ranges over them and appends to them).
  \<^item> The catalog is a slice of pointers to resource lists. The pointers are taken to be
    non-nil, which is what the discovery client delivers.
\<close>

subsection \<open>The functions of Go's \<^verbatim>\<open>strings\<close> package that the file calls\<close>

text \<open>
  \<^verbatim>\<open>strings.ToLower\<close>, as Go's library writes it. A string whose bytes are all below
  \<^verbatim>\<open>0x80\<close> is ASCII: it is returned as it is when it has no byte in \<^verbatim>\<open>'A'..'Z'\<close>, and
  otherwise with \<^verbatim>\<open>'a' - 'A'\<close> added to each such byte. Any other string is handed to
  \<^verbatim>\<open>strings.Map(unicode.ToLower, s)\<close>, which decodes UTF-8 and uses the Unicode tables; that
  function is a parameter here. (On an ASCII string the Unicode lowering returns what the
  ASCII branch returns, so library versions without that branch agree.)
\<close>

definition isASCII :: "string \<Rightarrow> bool" where
  "isASCII s = list_all (\<lambda>c. (of_char c :: nat) < 128) s"

definition isUpperByte :: "char \<Rightarrow> bool" where
  "isUpperByte c = ((65::nat) \<le> of_char c \<and> of_char c \<le> (90::nat))"

definition toLowerByte :: "char \<Rightarrow> char" where
  "toLowerByte c = (if isUpperByte c then char_of (of_char c + (32::nat)) else c)"

definition ToLower :: "(string \<Rightarrow> string) \<Rightarrow> string \<Rightarrow> string" where
  "ToLower mapUnicodeToLower s =
     (if isASCII s
      then (if \<not> list_ex isUpperByte s then s else map toLowerByte s)
      else mapUnicodeToLower s)"

text \<open>\<^verbatim>\<open>strings.Contains(s, substr)\<close>: \<^verbatim>\<open>substr\<close> occurs in \<^verbatim>\<open>s\<close> as a contiguous run.\<close>

fun Contains :: "string \<Rightarrow> string \<Rightarrow> bool" where
  "Contains [] substr = (substr = [])"
| "Contains (c # s) substr = (prefix substr (c # s) \<or> Contains s substr)"

text \<open>
  \<^verbatim>\<open>strings.Split(s, sep)\<close> cuts \<^verbatim>\<open>s\<close> at every occurrence of \<^verbatim>\<open>sep\<close>, found from left to
  right without overlap, and returns the pieces between them: one more piece than there
  are separators. \<^term>\<open>splitFrom sep cur s\<close> scans \<^term>\<open>s\<close> with the current piece
  \<^term>\<open>cur\<close> held in reverse. With an empty separator Go returns the string cut into its
  UTF-8 sequences, single bytes for ASCII.
\<close>

function splitFrom :: "string \<Rightarrow> string \<Rightarrow> string \<Rightarrow> string list" where
  "splitFrom sep cur s =
     (if sep \<noteq> [] \<and> prefix sep s
      then rev cur # splitFrom sep [] (drop (length sep) s)
      else (case s of
              [] \<Rightarrow> [rev cur]
            | c # t \<Rightarrow> splitFrom sep (c # cur) t))"
  by pat_completeness auto
termination
  by (relation "measure (\<lambda>(sep, cur, s). length s)") (auto simp: prefix_def)

declare splitFrom.simps [simp del]

definition Split :: "string \<Rightarrow> string \<Rightarrow> string list" where
  "Split s sep = (if sep = [] then map (\<lambda>c. [c]) s else splitFrom sep [] s)"

text \<open>\<^verbatim>\<open>strings.Join(elems, sep)\<close>, the inverse of splitting; the file does not call it, it
  serves to say what the pieces of a split are.\<close>

fun Join :: "string list \<Rightarrow> string \<Rightarrow> string" where
  "Join [] sep = []"
| "Join [x] sep = x"
| "Join (x # y # ys) sep = x @ sep @ Join (y # ys) sep"

subsection \<open>Data model\<close>

text \<open>
  An error value is either made in this file by \<^verbatim>\<open>errors.New\<close> with its message, or comes
  from a library the file calls.
\<close>

datatype error = ErrorsNew string | LibraryError string

text \<open>\<^verbatim>\<open>schema.GroupVersionKind\<close> of apimachinery, with its two printing methods.\<close>

record GroupVersionKind =
  Group :: string
  Version :: string
  Kind :: string

text \<open>\<^verbatim>\<open>gvk.GroupVersion().String()\<close>: the text \<^verbatim>\<open>group/version\<close>, or the version alone
  when the group is empty.\<close>

definition GroupVersion_String :: "GroupVersionKind \<Rightarrow> string" where
  "GroupVersion_String gvk =
     (if length (Group gvk) = 0 \<and> length (Version gvk) = 0 then ''''
      else if length (Group gvk) = 0 \<and> Version gvk = ''v1'' then Version gvk
      else if length (Group gvk) > 0 then Group gvk @ ''/'' @ Version gvk
      else Version gvk)"

text \<open>\<^verbatim>\<open>gvk.String()\<close>.\<close>

definition GroupVersionKind_String :: "GroupVersionKind \<Rightarrow> string" where
  "GroupVersionKind_String gvk = Group gvk @ ''/'' @ Version gvk @ '', Kind='' @ Kind gvk"

text \<open>\<^verbatim>\<open>metav1.APIResource\<close> and \<^verbatim>\<open>metav1.APIResourceList\<close>: the fields the file reads, and
  the resource's name.\<close>

record APIResource =
  ResourceName :: string
  Namespaced :: bool
  ResourceKind :: string

record APIResourceList =
  GroupVersion :: string
  APIResources :: "APIResource list"

text \<open>\<^verbatim>\<open>unstructured.Unstructured\<close> with the two metadata fields its getters read; a getter
  returns the empty string for a field that is not set.\<close>

record Unstructured =
  metadata_namespace :: string
  metadata_name :: string

definition GetNamespace :: "Unstructured \<Rightarrow> string" where
  "GetNamespace u = metadata_namespace u"

definition GetName :: "Unstructured \<Rightarrow> string" where
  "GetName u = metadata_name u"

text \<open>A value of type \<^verbatim>\<open>interface{}\<close> handed to a generator: a pointer to an unstructured
  object (not nil: the metrics store hands over the objects it lists), or anything else.\<close>

datatype obj = UnstructuredPtr Unstructured | OtherObject

text \<open>The metric types of kube-state-metrics.\<close>

datatype MetricType = Gauge | Counter

record Metric =
  LabelKeys :: "string list"
  LabelValues :: "string list"
  Value :: real

record Family =
  Metrics :: "Metric list"

text \<open>The generator function of a family panics when the type assertion on its argument
  fails; \<^term>\<open>None\<close> is that panic.\<close>

record FamilyGenerator =
  Name :: string
  Type :: MetricType
  Help :: string
  GenerateFunc :: "obj \<Rightarrow> Family option"

subsection \<open>\<^verbatim>\<open>generateMetricFamilies\<close>\<close>

text \<open>The first argument is the Unicode lowering that \<^verbatim>\<open>strings.ToLower\<close> falls back on.\<close>

definition generateMetricFamilies :: "(string \<Rightarrow> string) \<Rightarrow> string \<Rightarrow> FamilyGenerator list" where
  "generateMetricFamilies mapUnicodeToLower kind =
     (let helpText = ''Information about the '' @ kind @ '' custom resource.'';
          kindName = ToLower mapUnicodeToLower kind;
          metricName = kindName @ ''_info''
      in [\<lparr>Name = metricName,
           Type = Gauge,
           Help = helpText,
           GenerateFunc = (\<lambda>obj.
             (case obj of
                UnstructuredPtr crd \<Rightarrow>
                  Some \<lparr>Metrics =
                    [\<lparr>LabelKeys = [''namespace'', kindName],
                      LabelValues = [GetNamespace crd, GetName crd],
                      Value = 1\<rparr>]\<rparr>
              | OtherObject \<Rightarrow> None))\<rparr>])"

subsection \<open>\<^verbatim>\<open>GetNamespacesForMetrics\<close>\<close>

text \<open>
  \<^verbatim>\<open>k8sutil.GetWatchNamespace()\<close> reads the process environment; the pair it returns is the
  first argument here.
\<close>

definition GetNamespacesForMetrics ::
    "string \<times> error option \<Rightarrow> string \<Rightarrow> string list \<times> error option" where
  "GetNamespacesForMetrics GetWatchNamespace operatorNs =
     (let ns = [operatorNs];
          (watchNamespace, err) = GetWatchNamespace
      in (case err of
            Some e \<Rightarrow> ([], Some e)
          | None \<Rightarrow>
              (let ns' = (if Contains watchNamespace '','' then Split watchNamespace '','' else ns)
               in (ns', None))))"

subsection \<open>\<^verbatim>\<open>isNamespaced\<close>\<close>

text \<open>The inner loop over the resources of one list: the flag of the first resource of the
  kind, if there is one.\<close>

fun findKind :: "string \<Rightarrow> APIResource list \<Rightarrow> bool option" where
  "findKind kind [] = None"
| "findKind kind (apiResource # rest) =
     (if ResourceKind apiResource = kind then Some (Namespaced apiResource)
      else findKind kind rest)"

fun isNamespaced :: "GroupVersionKind \<Rightarrow> APIResourceList list \<Rightarrow> bool \<times> error option" where
  "isNamespaced gvk [] =
     (False, Some (ErrorsNew (''unable to find type: '' @ GroupVersionKind_String gvk @ '' in server'')))"
| "isNamespaced gvk (resourceList # rest) =
     (if GroupVersion resourceList = GroupVersion_String gvk
      then (case findKind (Kind gvk) (APIResources resourceList) of
              Some namespaced \<Rightarrow> (namespaced, None)
            | None \<Rightarrow> isNamespaced gvk rest)
      else isNamespaced gvk rest)"

text \<open>
  For the statements about the lookup: the resources of the catalog that match a GVK,
  that is, those of the GVK's kind in a list whose \<^verbatim>\<open>GroupVersion\<close> is the GVK's
  group/version text, in catalog order.
\<close>

definition matchingResources :: "GroupVersionKind \<Rightarrow> APIResourceList list \<Rightarrow> APIResource list" where
  "matchingResources gvk cat =
     concat (map (\<lambda>rl. filter (\<lambda>r. ResourceKind r = Kind gvk) (APIResources rl))
               (filter (\<lambda>rl. GroupVersion rl = GroupVersion_String gvk) cat))"

subsection \<open>\<^verbatim>\<open>GenerateAndServeCRMetrics\<close>\<close>

text \<open>
  The entry point calls four functions of the package that live in its other files
  (\<^verbatim>\<open>getAPIResourceLists\<close>, \<^verbatim>\<open>newClientForGVK\<close>, \<^verbatim>\<open>NewNamespacedMetricsStores\<close>,
  \<^verbatim>\<open>NewClusterScopedMetricsStores\<close>). They talk to the cluster, so each takes the state of
  the world and returns the new one; they are the fields of an environment the entry point
  is given. The types of the configuration, of a client, of a metrics store and of the
  world are parameters. The environment also holds the Unicode lowering of Go's library
  that \<^verbatim>\<open>strings.ToLower\<close> falls back on, a pure function.
\<close>

record ('cfg, 'c, 's, 'w) env =
  getAPIResourceLists ::
    "'cfg \<Rightarrow> 'w \<Rightarrow> (APIResourceList list \<times> error option) \<times> 'w"
  newClientForGVK ::
    "'cfg \<Rightarrow> APIResourceList list \<Rightarrow> string \<Rightarrow> string \<Rightarrow> 'w \<Rightarrow> ('c \<times> error option) \<times> 'w"
  NewNamespacedMetricsStores ::
    "'c \<Rightarrow> string list \<Rightarrow> string \<Rightarrow> string \<Rightarrow> FamilyGenerator list \<Rightarrow> 'w \<Rightarrow> 's list \<times> 'w"
  NewClusterScopedMetricsStores ::
    "'c \<Rightarrow> string \<Rightarrow> string \<Rightarrow> FamilyGenerator list \<Rightarrow> 'w \<Rightarrow> 's list \<times> 'w"
  Map_unicode_ToLower :: "string \<Rightarrow> string"

text \<open>
  What a run does besides returning is recorded as the list of its events, in the order
  of the source: every log line, every call of one of the four functions with its
  arguments (a store constructor also with the stores it returned), and the \<^verbatim>\<open>go\<close>
  statement that starts \<^verbatim>\<open>ServeMetrics\<close> in the background. The port is an \<^verbatim>\<open>int32\<close>.
\<close>

datatype ('cfg, 'c, 's) event =
    LogInfo string "string list"
  | Call_getAPIResourceLists 'cfg
  | Call_newClientForGVK 'cfg "APIResourceList list" string string
  | Call_NewNamespacedMetricsStores 'c "string list" string string "FamilyGenerator list" "'s list"
  | Call_NewClusterScopedMetricsStores 'c string string "FamilyGenerator list" "'s list"
  | Go_ServeMetrics "'s list list" string "32 word"

fun isStoreCall :: "('cfg, 'c, 's) event \<Rightarrow> bool" where
  "isStoreCall (Call_NewNamespacedMetricsStores _ _ _ _ _ _) = True"
| "isStoreCall (Call_NewClusterScopedMetricsStores _ _ _ _ _) = True"
| "isStoreCall _ = False"

fun storesOf :: "('cfg, 'c, 's) event \<Rightarrow> 's list" where
  "storesOf (Call_NewNamespacedMetricsStores _ _ _ _ _ stores) = stores"
| "storesOf (Call_NewClusterScopedMetricsStores _ _ _ _ stores) = stores"
| "storesOf _ = []"

fun isServe :: "('cfg, 'c, 's) event \<Rightarrow> bool" where
  "isServe (Go_ServeMetrics _ _ _) = True"
| "isServe _ = False"

fun isFetch :: "('cfg, 'c, 's) event \<Rightarrow> bool" where
  "isFetch (Call_getAPIResourceLists _) = True"
| "isFetch _ = False"

text \<open>The two log-and-call openings: of the function, and of each pass of its loop.\<close>

definition fetchEvents :: "'cfg \<Rightarrow> ('cfg, 'c, 's) event list" where
  "fetchEvents cfg = [LogInfo ''Starting collecting operator types'' [], Call_getAPIResourceLists cfg]"

definition clientEvents :: "'cfg \<Rightarrow> APIResourceList list \<Rightarrow> GroupVersionKind \<Rightarrow> ('cfg, 'c, 's) event list" where
  "clientEvents cfg cat gvk =
     [LogInfo ''Generating metric families''
        [''apiVersion'', GroupVersion_String gvk, ''kind'', Kind gvk],
      Call_newClientForGVK cfg cat (GroupVersion_String gvk) (Kind gvk)]"

text \<open>
  One pass through the body of the loop over \<^verbatim>\<open>operatorGVKs\<close>: the error that ends the
  function there (if any), the stores built for the GVK, the events, the new world.
\<close>

definition gvkBody ::
    "('cfg, 'c, 's, 'w) env \<Rightarrow> 'cfg \<Rightarrow> string list \<Rightarrow> APIResourceList list \<Rightarrow> GroupVersionKind \<Rightarrow> 'w
      \<Rightarrow> error option \<times> 's list \<times> ('cfg, 'c, 's) event list \<times> 'w" where
  "gvkBody env cfg ns apiResourceLists gvk w =
     (let apiVersion = GroupVersion_String gvk;
          kind = Kind gvk;
          metricFamilies = generateMetricFamilies (Map_unicode_ToLower env) (Kind gvk);
          ev1 = [LogInfo ''Generating metric families'' [''apiVersion'', apiVersion, ''kind'', kind],
                 Call_newClientForGVK cfg apiResourceLists apiVersion kind];
          ((dclient, err), w1) = newClientForGVK env cfg apiResourceLists apiVersion kind w
      in (case err of
            Some e \<Rightarrow> (Some e, [], ev1, w1)
          | None \<Rightarrow>
              (case isNamespaced gvk apiResourceLists of
                 (namespaced, Some e) \<Rightarrow> (Some e, [], ev1, w1)
               | (namespaced, None) \<Rightarrow>
                   (if namespaced
                    then (let (gvkStores, w2) =
                                NewNamespacedMetricsStores env dclient ns apiVersion kind metricFamilies w1
                          in (None, gvkStores,
                              ev1 @ [Call_NewNamespacedMetricsStores dclient ns apiVersion kind
                                       metricFamilies gvkStores], w2))
                    else (let (gvkStores, w2) =
                                NewClusterScopedMetricsStores env dclient apiVersion kind metricFamilies w1
                          in (None, gvkStores,
                              ev1 @ [Call_NewClusterScopedMetricsStores dclient apiVersion kind
                                       metricFamilies gvkStores], w2))))))"

text \<open>The loop, with \<^verbatim>\<open>allStores\<close> as its accumulator; an error leaves it at once.\<close>

fun gvkLoop ::
    "('cfg, 'c, 's, 'w) env \<Rightarrow> 'cfg \<Rightarrow> string list \<Rightarrow> APIResourceList list \<Rightarrow> GroupVersionKind list
      \<Rightarrow> 's list list \<Rightarrow> 'w \<Rightarrow> error option \<times> 's list list \<times> ('cfg, 'c, 's) event list \<times> 'w" where
  "gvkLoop env cfg ns apiResourceLists [] allStores w = (None, allStores, [], w)"
| "gvkLoop env cfg ns apiResourceLists (gvk # rest) allStores w =
     (case gvkBody env cfg ns apiResourceLists gvk w of
        (Some e, gvkStores, evs, w1) \<Rightarrow> (Some e, allStores, evs, w1)
      | (None, gvkStores, evs, w1) \<Rightarrow>
          (case gvkLoop env cfg ns apiResourceLists rest (allStores @ [gvkStores]) w1 of
             (r, allStores', evs', w2) \<Rightarrow> (r, allStores', evs @ evs', w2)))"

text \<open>The entry point: the error it returns, the events of the run, the world it leaves.\<close>

definition GenerateAndServeCRMetrics ::
    "('cfg, 'c, 's, 'w) env \<Rightarrow> 'cfg \<Rightarrow> string list \<Rightarrow> GroupVersionKind list \<Rightarrow> string \<Rightarrow> 32 word \<Rightarrow> 'w
      \<Rightarrow> error option \<times> ('cfg, 'c, 's) event list \<times> 'w" where
  "GenerateAndServeCRMetrics env cfg ns operatorGVKs host port w =
     (if length ns < 1
      then (Some (ErrorsNew
              ''namespaces were empty; pass at least one namespace to generate custom resource metrics''),
            [], w)
      else (let ev0 = [LogInfo ''Starting collecting operator types'' [],
                       Call_getAPIResourceLists cfg];
                ((apiResourceLists, err), w1) = getAPIResourceLists env cfg w
            in (case err of
                  Some e \<Rightarrow> (Some e, ev0, w1)
                | None \<Rightarrow>
                    (case gvkLoop env cfg ns apiResourceLists operatorGVKs [] w1 of
                       (Some e, allStores, evs, w2) \<Rightarrow> (Some e, ev0 @ evs, w2)
                     | (None, allStores, evs, w2) \<Rightarrow>
                         (None,
                          ev0 @ evs @
                            [LogInfo ''Starting serving custom resource metrics'' [],
                             Go_ServeMetrics allStores host port],
                          w2)))))"

text \<open>
  What the call that builds the stores of a GVK has to be: the namespaced constructor
  over the given namespaces when the catalog classifies the GVK as namespaced, the
  cluster-scoped constructor when it classifies it as not namespaced, for the GVK's
  group/version text and kind and the metric families of the kind.
\<close>

fun storeCallFor ::
    "(string \<Rightarrow> string) \<Rightarrow> string list \<Rightarrow> APIResourceList list \<Rightarrow> GroupVersionKind
      \<Rightarrow> ('cfg, 'c, 's) event \<Rightarrow> bool" where
  "storeCallFor lower ns cat gvk (Call_NewNamespacedMetricsStores dclient ns' apiVersion kind fams stores) =
     (isNamespaced gvk cat = (True, None) \<and> ns' = ns \<and> apiVersion = GroupVersion_String gvk \<and>
      kind = Kind gvk \<and> fams = generateMetricFamilies lower (Kind gvk))"
| "storeCallFor lower ns cat gvk (Call_NewClusterScopedMetricsStores dclient apiVersion kind fams stores) =
     (isNamespaced gvk cat = (False, None) \<and> apiVersion = GroupVersion_String gvk \<and>
      kind = Kind gvk \<and> fams = generateMetricFamilies lower (Kind gvk))"
| "storeCallFor lower ns cat gvk _ = False"

text \<open>
  The success path of the loop, said of the collaborators and the catalog alone: from
  world \<open>w\<close> on, the client for each GVK in turn is made without error and the
  catalog has a resource matching the GVK; the world moves on by the call that makes the
  client and by the constructor of the scope that the first matching resource records.
\<close>

fun collaboratorsSucceed ::
    "('cfg, 'c, 's, 'w) env \<Rightarrow> 'cfg \<Rightarrow> string list \<Rightarrow> APIResourceList list \<Rightarrow> GroupVersionKind list
      \<Rightarrow> 'w \<Rightarrow> bool" where
  "collaboratorsSucceed env cfg ns cat [] w = True"
| "collaboratorsSucceed env cfg ns cat (g # gs) w =
     (case newClientForGVK env cfg cat (GroupVersion_String g) (Kind g) w of
        ((dclient, Some e), w1) \<Rightarrow> False
      | ((dclient, None), w1) \<Rightarrow>
          matchingResources g cat \<noteq> [] \<and>
          collaboratorsSucceed env cfg ns cat gs
            (snd (if Namespaced (hd (matchingResources g cat))
                  then NewNamespacedMetricsStores env dclient ns (GroupVersion_String g) (Kind g)
                         (generateMetricFamilies (Map_unicode_ToLower env) (Kind g)) w1
                  else NewClusterScopedMetricsStores env dclient (GroupVersion_String g) (Kind g)
                         (generateMetricFamilies (Map_unicode_ToLower env) (Kind g)) w1)))"

subsection \<open>A small cluster to run the functions on\<close>

text \<open>
  A catalog with the core group and one custom group, and an environment over it: the
  world counts the requests made, a configuration is the server's address, a client is
  named after its type and a store after what it watches. Its kinds are ASCII, so the
  Unicode lowering is never reached; a function that keeps the string stands in for it.
\<close>

definition sample_catalog :: "APIResourceList list" where
  "sample_catalog =
     [\<lparr>GroupVersion = ''v1'',
       APIResources = [\<lparr>ResourceName = ''pods'', Namespaced = True, ResourceKind = ''Pod''\<rparr>]\<rparr>,
      \<lparr>GroupVersion = ''cache.example.com/v1alpha1'',
       APIResources =
         [\<lparr>ResourceName = ''memcacheds'', Namespaced = True, ResourceKind = ''Memcached''\<rparr>,
          \<lparr>ResourceName = ''cachepools'', Namespaced = False, ResourceKind = ''CachePool''\<rparr>]\<rparr>]"

definition sample_env :: "(string, string, string, nat) env" where
  "sample_env =
     \<lparr>getAPIResourceLists = (\<lambda>cfg w.
        (if cfg = ''unreachable'' then ([], Some (LibraryError ''connection refused''))
         else (sample_catalog, None), Suc w)),
      newClientForGVK = (\<lambda>cfg apiResourceLists apiVersion kind w.
        (if kind = ''Broken'' then ([], Some (LibraryError ''no client for Broken''))
         else (apiVersion @ '' '' @ kind, None), Suc w)),
      NewNamespacedMetricsStores = (\<lambda>dclient ns apiVersion kind fams w.
        (map (\<lambda>n. n @ ''/'' @ kind) ns, w + length ns)),
      NewClusterScopedMetricsStores = (\<lambda>dclient apiVersion kind fams w. ([kind], Suc w)),
      Map_unicode_ToLower = (\<lambda>s. s)\<rparr>"

definition memcachedGVK :: GroupVersionKind where
  "memcachedGVK = \<lparr>Group = ''cache.example.com'', Version = ''v1alpha1'', Kind = ''Memcached''\<rparr>"

definition cachePoolGVK :: GroupVersionKind where
  "cachePoolGVK = \<lparr>Group = ''cache.example.com'', Version = ''v1alpha1'', Kind = ''CachePool''\<rparr>"

definition brokenGVK :: GroupVersionKind where
  "brokenGVK = \<lparr>Group = ''cache.example.com'', Version = ''v1alpha1'', Kind = ''Broken''\<rparr>"

definition ghostGVK :: GroupVersionKind where
  "ghostGVK = \<lparr>Group = ''cache.example.com'', Version = ''v1alpha1'', Kind = ''Ghost''\<rparr>"

text \<open>
  A catalog that records the kind \<^verbatim>\<open>Memcached\<close> four times: under another version first,
  then twice in one list of the queried group/version, then in a later list of it.
\<close>

definition shadowed_catalog :: "APIResourceList list" where
  "shadowed_catalog =
     [\<lparr>GroupVersion = ''cache.example.com/v1beta1'',
       APIResources =
         [\<lparr>ResourceName = ''memcacheds'', Namespaced = False, ResourceKind = ''Memcached''\<rparr>]\<rparr>,
      \<lparr>GroupVersion = ''cache.example.com/v1alpha1'',
       APIResources =
         [\<lparr>ResourceName = ''cachepools'', Namespaced = False, ResourceKind = ''CachePool''\<rparr>,
          \<lparr>ResourceName = ''memcacheds'', Namespaced = True, ResourceKind = ''Memcached''\<rparr>,
          \<lparr>ResourceName = ''memcacheds/status'', Namespaced = False, ResourceKind = ''Memcached''\<rparr>]\<rparr>,
      \<lparr>GroupVersion = ''cache.example.com/v1alpha1'',
       APIResources =
         [\<lparr>ResourceName = ''memcacheds'', Namespaced = False, ResourceKind = ''Memcached''\<rparr>]\<rparr>]"

section \<open>Properties\<close>

subsection \<open>Strings\<close>

text \<open>Lowering an ASCII string is bytewise and leaves no ASCII capital.\<close>

lemma of_char_toLowerByte:
  "(of_char (toLowerByte c) :: nat) = (if isUpperByte c then of_char c + 32 else of_char c)"
  by (simp add: toLowerByte_def isUpperByte_def)

lemma toLowerByte_not_upper: "\<not> isUpperByte (toLowerByte c)"
  unfolding isUpperByte_def[of "toLowerByte c"] of_char_toLowerByte
  by (simp add: isUpperByte_def)

lemma toLowerByte_idem: "toLowerByte (toLowerByte c) = toLowerByte c"
  using toLowerByte_not_upper[of c] by (simp add: toLowerByte_def[of "toLowerByte c"])

lemma map_toLowerByte_no_upper: "\<not> list_ex isUpperByte s \<Longrightarrow> map toLowerByte s = s"
  by (induction s) (simp_all add: toLowerByte_def)

lemma ToLower_ASCII: "isASCII s \<Longrightarrow> ToLower f s = map toLowerByte s"
  by (simp add: ToLower_def map_toLowerByte_no_upper)

lemma ToLower_ASCII_no_upper: "isASCII s \<Longrightarrow> \<not> list_ex isUpperByte (ToLower f s)"
  by (simp add: ToLower_ASCII list_ex_iff toLowerByte_not_upper)

lemma ToLower_length: "isASCII s \<Longrightarrow> length (ToLower f s) = length s"
  by (simp add: ToLower_ASCII)

lemma Contains_single: "Contains s [c] \<longleftrightarrow> c \<in> set s"
  by (induction s) auto

lemma splitFrom_nonempty: "splitFrom sep cur s \<noteq> []"
proof (induction sep cur s rule: splitFrom.induct)
  case (1 sep cur s)
  show ?case
  proof (cases "sep \<noteq> [] \<and> prefix sep s")
    case True
    then show ?thesis by (subst splitFrom.simps) simp
  next
    case False
    show ?thesis
    proof (cases s)
      case Nil
      with False show ?thesis by (subst splitFrom.simps) simp
    next
      case (Cons c t)
      with False 1(2) have "splitFrom sep (c # cur) t \<noteq> []" by blast
      with False Cons show ?thesis by (subst splitFrom.simps) simp
    qed
  qed
qed

lemma Split_nonempty: "sep \<noteq> [] \<Longrightarrow> Split s sep \<noteq> []"
  by (simp add: Split_def splitFrom_nonempty)

lemma Join_Cons: "rest \<noteq> [] \<Longrightarrow> Join (x # rest) sep = x @ sep @ Join rest sep"
  by (cases rest) simp_all

lemma Join_splitFrom: "sep \<noteq> [] \<Longrightarrow> Join (splitFrom sep cur s) sep = rev cur @ s"
proof (induction sep cur s rule: splitFrom.induct)
  case (1 sep cur s)
  show ?case
  proof (cases "prefix sep s")
    case True
    then have s: "s = sep @ drop (length sep) s" by (auto simp: prefix_def)
    from True 1 have "Join (splitFrom sep [] (drop (length sep) s)) sep = drop (length sep) s"
      by simp
    then have "Join (rev cur # splitFrom sep [] (drop (length sep) s)) sep
                 = rev cur @ sep @ drop (length sep) s"
      by (simp add: Join_Cons splitFrom_nonempty)
    moreover have "splitFrom sep cur s = rev cur # splitFrom sep [] (drop (length sep) s)"
      using True 1(3) by (subst splitFrom.simps) simp
    ultimately show ?thesis using s by simp
  next
    case False
    show ?thesis
    proof (cases s)
      case Nil
      with False show ?thesis by (subst splitFrom.simps) simp
    next
      case (Cons c t)
      with False 1 have "Join (splitFrom sep (c # cur) t) sep = rev (c # cur) @ t" by blast
      moreover have "splitFrom sep cur s = splitFrom sep (c # cur) t"
        using False Cons by (subst splitFrom.simps) simp
      ultimately show ?thesis using Cons by simp
    qed
  qed
qed

lemma Join_Split: "sep \<noteq> [] \<Longrightarrow> Join (Split s sep) sep = s"
  by (simp add: Split_def Join_splitFrom)

lemma splitFrom_single:
  "splitFrom [c] cur (x # t) = (if x = c then rev cur # splitFrom [c] [] t else splitFrom [c] (x # cur) t)"
  by (subst splitFrom.simps) simp

lemma splitFrom_single_Nil: "splitFrom [c] cur [] = [rev cur]"
  by (subst splitFrom.simps) simp

lemma splitFrom_single_pieces:
  "c \<notin> set cur \<Longrightarrow> \<forall>p\<in>set (splitFrom [c] cur s). c \<notin> set p"
proof (induction s arbitrary: cur)
  case Nil
  then show ?case by (simp add: splitFrom_single_Nil)
next
  case (Cons x t)
  have "\<forall>p\<in>set (splitFrom [c] [] t). c \<notin> set p"
    by (rule Cons.IH) simp
  moreover have "x \<noteq> c \<Longrightarrow> \<forall>p\<in>set (splitFrom [c] (x # cur) t). c \<notin> set p"
    using Cons.prems by (intro Cons.IH) simp
  ultimately show ?case using Cons.prems by (simp add: splitFrom_single)
qed

lemma splitFrom_single_length:
  "length (splitFrom [c] cur s) = Suc (count_list s c)"
  by (induction s arbitrary: cur) (simp_all add: splitFrom_single splitFrom_single_Nil)

lemma Split_comma: 
  "(\<forall>p\<in>set (Split s '',''). CHR '','' \<notin> set p) \<and> length (Split s '','') = Suc (count_list s CHR '','')"
  using splitFrom_single_pieces[of "CHR '',''" "[]" s] splitFrom_single_length[of "CHR '',''" "[]" s]
  by (simp add: Split_def)

lemma Split_example: "Split ''team-a,team-b'' '','' = [''team-a'', ''team-b'']"
  by code_simp

lemma Memcached_ASCII: "isASCII ''Memcached''"
  by (simp add: isASCII_def)

lemma Memcached_lower: "map toLowerByte ''Memcached'' = ''memcached''"
  by code_simp

lemma ToLower_Memcached: "ToLower f ''Memcached'' = ''memcached''"
  by (simp only: ToLower_ASCII[OF Memcached_ASCII] Memcached_lower)

subsection \<open>The catalog lookup\<close>

lemma findKind_None: "findKind kind rs = None \<longleftrightarrow> (\<forall>r\<in>set rs. ResourceKind r \<noteq> kind)"
  by (induction rs) auto

lemma findKind_Some: "findKind kind rs = Some b \<Longrightarrow> \<exists>r\<in>set rs. ResourceKind r = kind \<and> Namespaced r = b"
  by (induction rs) (auto split: if_splits)

lemma findKind_first:
  "findKind kind (pre @ r # post) = Some (Namespaced r)"
  if "\<forall>q\<in>set pre. ResourceKind q \<noteq> kind" "ResourceKind r = kind"
  using that by (induction pre) auto

lemma isNamespaced_skip:
  assumes "\<forall>l\<in>set pre. GroupVersion l = GroupVersion_String gvk \<longrightarrow>
             (\<forall>q\<in>set (APIResources l). ResourceKind q \<noteq> Kind gvk)"
  shows "isNamespaced gvk (pre @ rest) = isNamespaced gvk rest"
  using assms
proof (induction pre)
  case Nil
  then show ?case by simp
next
  case (Cons l pre)
  from Cons.prems have "GroupVersion l = GroupVersion_String gvk \<Longrightarrow> findKind (Kind gvk) (APIResources l) = None"
    by (simp add: findKind_None)
  moreover from Cons have "isNamespaced gvk (pre @ rest) = isNamespaced gvk rest"
    by simp
  ultimately show ?case by (simp del: isNamespaced.simps(1))
qed

lemma isNamespaced_none:
  assumes "\<forall>l\<in>set cat. GroupVersion l = GroupVersion_String gvk \<longrightarrow>
             (\<forall>q\<in>set (APIResources l). ResourceKind q \<noteq> Kind gvk)"
  shows "isNamespaced gvk cat = isNamespaced gvk []"
  using isNamespaced_skip[OF assms, of "[]"] by (simp del: isNamespaced.simps)

lemma isNamespaced_some:
  assumes "rl \<in> set cat" and "GroupVersion rl = GroupVersion_String gvk"
    and "r \<in> set (APIResources rl)" and "ResourceKind r = Kind gvk"
  shows "\<exists>rl'\<in>set cat. \<exists>r'\<in>set (APIResources rl').
            GroupVersion rl' = GroupVersion_String gvk \<and> ResourceKind r' = Kind gvk \<and>
            isNamespaced gvk cat = (Namespaced r', None)"
  using assms(1)
proof (induction cat)
  case Nil
  then show ?case by simp
next
  case (Cons l cat)
  show ?case
  proof (cases "GroupVersion l = GroupVersion_String gvk")
    case gv: True
    show ?thesis
    proof (cases "findKind (Kind gvk) (APIResources l)")
      case None
      then have nk: "\<forall>q\<in>set (APIResources l). ResourceKind q \<noteq> Kind gvk"
        by (simp add: findKind_None)
      with assms(3,4) have "rl \<noteq> l" by blast
      with Cons.prems have "rl \<in> set cat" by simp
      from Cons.IH[OF this] obtain rl' r' where
        "rl' \<in> set cat" "r' \<in> set (APIResources rl')"
        "GroupVersion rl' = GroupVersion_String gvk" "ResourceKind r' = Kind gvk"
        "isNamespaced gvk cat = (Namespaced r', None)" by blast
      moreover have "isNamespaced gvk (l # cat) = isNamespaced gvk cat"
        using gv None by simp
      ultimately show ?thesis
        by (metis list.set_intros(2))
    next
      case (Some b)
      from findKind_Some[OF Some] obtain r' where
        "r' \<in> set (APIResources l)" "ResourceKind r' = Kind gvk" "Namespaced r' = b" by blast
      moreover have "isNamespaced gvk (l # cat) = (b, None)"
        using gv Some by simp
      ultimately have "r' \<in> set (APIResources l) \<and> GroupVersion l = GroupVersion_String gvk \<and>
          ResourceKind r' = Kind gvk \<and> isNamespaced gvk (l # cat) = (Namespaced r', None)"
        using gv by simp
      moreover have "l \<in> set (l # cat)" by simp
      ultimately show ?thesis by blast
    qed
  next
    case ngv: False
    with assms(2) have "rl \<noteq> l" by blast
    with Cons.prems have "rl \<in> set cat" by simp
    from Cons.IH[OF this] obtain rl' r' where
      "rl' \<in> set cat" "r' \<in> set (APIResources rl')"
      "GroupVersion rl' = GroupVersion_String gvk" "ResourceKind r' = Kind gvk"
      "isNamespaced gvk cat = (Namespaced r', None)" by blast
    moreover have "isNamespaced gvk (l # cat) = isNamespaced gvk cat"
      using ngv by simp
    ultimately show ?thesis
      by (metis list.set_intros(2))
  qed
qed

lemma isNamespaced_filter:
  "isNamespaced gvk (filter (\<lambda>rl. GroupVersion rl = GroupVersion_String gvk) cat) = isNamespaced gvk cat"
proof (induction cat)
  case Nil
  show ?case by simp
next
  case (Cons l cat)
  then show ?case by (cases "findKind (Kind gvk) (APIResources l)") (simp_all del: isNamespaced.simps(1))
qed

lemma set_matchingResources:
  "r \<in> set (matchingResources gvk cat) \<longleftrightarrow>
     (\<exists>rl\<in>set cat. GroupVersion rl = GroupVersion_String gvk \<and>
        r \<in> set (APIResources rl) \<and> ResourceKind r = Kind gvk)"
  by (auto simp: matchingResources_def)

lemma findKind_filter:
  "findKind kind rs =
     (case filter (\<lambda>r. ResourceKind r = kind) rs of [] \<Rightarrow> None | r # _ \<Rightarrow> Some (Namespaced r))"
  by (induction rs) simp_all

lemma isNamespaced_matching:
  "isNamespaced gvk cat =
     (case matchingResources gvk cat of
        [] \<Rightarrow> isNamespaced gvk []
      | r # _ \<Rightarrow> (Namespaced r, None))"
proof (induction cat)
  case Nil
  show ?case by (simp add: matchingResources_def)
next
  case (Cons l cat)
  show ?case
  proof (cases "GroupVersion l = GroupVersion_String gvk")
    case False
    with Cons show ?thesis by (simp add: matchingResources_def del: isNamespaced.simps(1))
  next
    case True
    show ?thesis
    proof (cases "filter (\<lambda>r. ResourceKind r = Kind gvk) (APIResources l)")
      case Nil
      with True Cons show ?thesis
        by (simp add: matchingResources_def findKind_filter del: isNamespaced.simps(1))
    next
      case (Cons r rs)
      with True show ?thesis
        by (simp add: matchingResources_def findKind_filter del: isNamespaced.simps(1))
    qed
  qed
qed

text \<open>The sample values, evaluated.\<close>

lemma sample_gv:
  "GroupVersion_String memcachedGVK = ''cache.example.com/v1alpha1''"
  "GroupVersion_String cachePoolGVK = ''cache.example.com/v1alpha1''"
  "GroupVersion_String ghostGVK = ''cache.example.com/v1alpha1''"
  "GroupVersion_String brokenGVK = ''cache.example.com/v1alpha1''"
  by (simp_all add: GroupVersion_String_def memcachedGVK_def cachePoolGVK_def ghostGVK_def brokenGVK_def)

lemma sample_kind:
  "Kind memcachedGVK = ''Memcached''"
  "Kind cachePoolGVK = ''CachePool''"
  "Kind ghostGVK = ''Ghost''"
  "Kind brokenGVK = ''Broken''"
  by (simp_all add: memcachedGVK_def cachePoolGVK_def ghostGVK_def brokenGVK_def)

text \<open>
  Claim C3, as amended. When the catalog has a resource of the GVK's kind in a list whose
  \<^verbatim>\<open>GroupVersion\<close> is the GVK's group/version text, \<^verbatim>\<open>isNamespaced\<close> returns no error and
  the \<^verbatim>\<open>Namespaced\<close> flag recorded in the first such resource in catalog order. That is
  the flag of the given resource \<open>r\<close> whenever all such resources carry the flag of
  \<open>r\<close>, as when \<open>r\<close> is the only one.
\<close>

theorem isNamespaced_present_first:
  assumes "rl \<in> set cat" and "GroupVersion rl = GroupVersion_String gvk"
    and "r \<in> set (APIResources rl)" and "ResourceKind r = Kind gvk"
  shows "matchingResources gvk cat \<noteq> [] \<and>
         isNamespaced gvk cat = (Namespaced (hd (matchingResources gvk cat)), None) \<and>
         ((\<forall>q\<in>set (matchingResources gvk cat). Namespaced q = Namespaced r) \<longrightarrow>
            isNamespaced gvk cat = (Namespaced r, None))"
proof -
  from assms have "r \<in> set (matchingResources gvk cat)"
    unfolding set_matchingResources by blast
  then obtain q qs where m: "matchingResources gvk cat = q # qs"
    by (cases "matchingResources gvk cat") auto
  then have res: "isNamespaced gvk cat = (Namespaced q, None)"
    by (simp add: isNamespaced_matching[of gvk cat] del: isNamespaced.simps)
  from m res show ?thesis by simp
qed

theorem isNamespaced_present_first_witness:
  "matchingResources memcachedGVK shadowed_catalog =
     [\<lparr>ResourceName = ''memcacheds'', Namespaced = True, ResourceKind = ''Memcached''\<rparr>,
      \<lparr>ResourceName = ''memcacheds/status'', Namespaced = False, ResourceKind = ''Memcached''\<rparr>,
      \<lparr>ResourceName = ''memcacheds'', Namespaced = False, ResourceKind = ''Memcached''\<rparr>]
   \<and> isNamespaced memcachedGVK shadowed_catalog = (True, None)
   \<and> isNamespaced cachePoolGVK sample_catalog = (False, None)"
proof -
  let ?r = "\<lparr>ResourceName = ''memcacheds/status'', Namespaced = False, ResourceKind = ''Memcached''\<rparr>"
  let ?rl = "shadowed_catalog ! 1"
  have h1: "?rl \<in> set shadowed_catalog" by (simp add: shadowed_catalog_def)
  have h2: "GroupVersion ?rl = GroupVersion_String memcachedGVK"
    by (simp add: shadowed_catalog_def sample_gv)
  have h3: "?r \<in> set (APIResources ?rl)" by (simp add: shadowed_catalog_def)
  have h4: "ResourceKind ?r = Kind memcachedGVK" by (simp add: sample_kind)
  have mr: "matchingResources memcachedGVK shadowed_catalog =
     [\<lparr>ResourceName = ''memcacheds'', Namespaced = True, ResourceKind = ''Memcached''\<rparr>,
      \<lparr>ResourceName = ''memcacheds/status'', Namespaced = False, ResourceKind = ''Memcached''\<rparr>,
      \<lparr>ResourceName = ''memcacheds'', Namespaced = False, ResourceKind = ''Memcached''\<rparr>]"
    by (simp add: matchingResources_def shadowed_catalog_def sample_gv sample_kind)
  from isNamespaced_present_first[OF h1 h2 h3 h4]
  have "isNamespaced memcachedGVK shadowed_catalog =
          (Namespaced (hd (matchingResources memcachedGVK shadowed_catalog)), None)"
    by blast
  then have a: "isNamespaced memcachedGVK shadowed_catalog = (True, None)"
    by (simp only: mr list.sel APIResource.simps)
  let ?p = "\<lparr>ResourceName = ''cachepools'', Namespaced = False, ResourceKind = ''CachePool''\<rparr>"
  let ?pl = "sample_catalog ! 1"
  have k1: "?pl \<in> set sample_catalog" by (simp add: sample_catalog_def)
  have k2: "GroupVersion ?pl = GroupVersion_String cachePoolGVK"
    by (simp add: sample_catalog_def sample_gv)
  have k3: "?p \<in> set (APIResources ?pl)" by (simp add: sample_catalog_def)
  have k4: "ResourceKind ?p = Kind cachePoolGVK" by (simp add: sample_kind)
  have k5: "\<forall>q\<in>set (matchingResources cachePoolGVK sample_catalog). Namespaced q = Namespaced ?p"
    by (simp add: matchingResources_def sample_catalog_def sample_gv sample_kind)
  from isNamespaced_present_first[OF k1 k2 k3 k4] k5
  have "isNamespaced cachePoolGVK sample_catalog = (Namespaced ?p, None)" by blast
  then have b: "isNamespaced cachePoolGVK sample_catalog = (False, None)" by simp
  from mr a b show ?thesis by (intro conjI)
qed

text \<open>
  The claim as first stated gives the flag of any matching resource. In the catalog
  below the resource \<^verbatim>\<open>memcacheds/status\<close> matches the GVK and is recorded as not
  namespaced, and \<^verbatim>\<open>isNamespaced\<close> returns \<^verbatim>\<open>true\<close>, the flag of the resource before it.
\<close>

theorem isNamespaced_present_counterexample:
  "shadowed_catalog ! 1 \<in> set shadowed_catalog
   \<and> GroupVersion (shadowed_catalog ! 1) = GroupVersion_String memcachedGVK
   \<and> \<lparr>ResourceName = ''memcacheds/status'', Namespaced = False, ResourceKind = ''Memcached''\<rparr>
        \<in> set (APIResources (shadowed_catalog ! 1))
   \<and> ResourceKind \<lparr>ResourceName = ''memcacheds/status'', Namespaced = False, ResourceKind = ''Memcached''\<rparr>
        = Kind memcachedGVK
   \<and> isNamespaced memcachedGVK shadowed_catalog = (True, None)
   \<and> isNamespaced memcachedGVK shadowed_catalog \<noteq>
        (Namespaced \<lparr>ResourceName = ''memcacheds/status'', Namespaced = False, ResourceKind = ''Memcached''\<rparr>,
         None)"
  by (simp add: shadowed_catalog_def sample_gv sample_kind)

text \<open>
  Claim C4. When no list of the catalog with the GVK's group/version text has a
  resource of the GVK's kind, \<^verbatim>\<open>isNamespaced\<close> returns an error, made by \<^verbatim>\<open>errors.New\<close>,
  whose message says that the type was not found in the server and names its group,
  version and kind; the flag that comes with it is \<^verbatim>\<open>false\<close>.
\<close>

theorem isNamespaced_absent:
  assumes "\<forall>rl\<in>set cat. GroupVersion rl = GroupVersion_String gvk \<longrightarrow>
             (\<forall>r\<in>set (APIResources rl). ResourceKind r \<noteq> Kind gvk)"
  shows "isNamespaced gvk cat =
           (False, Some (ErrorsNew (''unable to find type: '' @ Group gvk @ ''/'' @ Version gvk @
                                     '', Kind='' @ Kind gvk @ '' in server'')))"
  using isNamespaced_none[OF assms] by (simp add: GroupVersionKind_String_def)

theorem isNamespaced_absent_witness:
  "isNamespaced ghostGVK sample_catalog =
     (False, Some (ErrorsNew ''unable to find type: cache.example.com/v1alpha1, Kind=Ghost in server''))"
proof -
  have "\<forall>rl\<in>set sample_catalog. GroupVersion rl = GroupVersion_String ghostGVK \<longrightarrow>
             (\<forall>r\<in>set (APIResources rl). ResourceKind r \<noteq> Kind ghostGVK)"
    by (simp add: sample_catalog_def sample_gv sample_kind)
  from isNamespaced_absent[OF this] show ?thesis
    by (simp add: ghostGVK_def)
qed

text \<open>
  Claim C10. \<^verbatim>\<open>isNamespaced\<close> looks only at the lists whose \<^verbatim>\<open>GroupVersion\<close> is exactly the
  GVK's group/version text: its result on a catalog is its result on the catalog with
  every other list removed; a kind that the catalog records only under other
  group/versions is not matched (an error is returned); and the first matching resource
  in catalog order gives the result: when no list before \<open>rl\<close> has a match and no
  resource before \<open>r\<close> in \<open>rl\<close> is of the kind, the flag of \<open>r\<close> is
  returned, whatever follows.
\<close>

theorem isNamespaced_first_match:
  "isNamespaced gvk cat =
     isNamespaced gvk (filter (\<lambda>rl. GroupVersion rl = GroupVersion_String gvk) cat)
   \<and> ((\<forall>rl\<in>set cat. \<forall>r\<in>set (APIResources rl).
         ResourceKind r = Kind gvk \<longrightarrow> GroupVersion rl \<noteq> GroupVersion_String gvk)
       \<longrightarrow> snd (isNamespaced gvk cat) \<noteq> None)
   \<and> ((\<forall>l\<in>set pre. GroupVersion l = GroupVersion_String gvk \<longrightarrow>
           (\<forall>q\<in>set (APIResources l). ResourceKind q \<noteq> Kind gvk))
        \<and> GroupVersion rl = GroupVersion_String gvk
        \<and> APIResources rl = rpre @ r # rpost
        \<and> (\<forall>q\<in>set rpre. ResourceKind q \<noteq> Kind gvk)
        \<and> ResourceKind r = Kind gvk
       \<longrightarrow> isNamespaced gvk (pre @ rl # post) = (Namespaced r, None))"
proof (intro conjI impI)
  show "isNamespaced gvk cat =
     isNamespaced gvk (filter (\<lambda>rl. GroupVersion rl = GroupVersion_String gvk) cat)"
    by (simp only: isNamespaced_filter)
next
  assume "\<forall>rl\<in>set cat. \<forall>r\<in>set (APIResources rl).
         ResourceKind r = Kind gvk \<longrightarrow> GroupVersion rl \<noteq> GroupVersion_String gvk"
  then have "\<forall>l\<in>set cat. GroupVersion l = GroupVersion_String gvk \<longrightarrow>
             (\<forall>q\<in>set (APIResources l). ResourceKind q \<noteq> Kind gvk)" by blast
  from isNamespaced_none[OF this] show "snd (isNamespaced gvk cat) \<noteq> None"
    by simp
next
  assume a: "(\<forall>l\<in>set pre. GroupVersion l = GroupVersion_String gvk \<longrightarrow>
           (\<forall>q\<in>set (APIResources l). ResourceKind q \<noteq> Kind gvk))
        \<and> GroupVersion rl = GroupVersion_String gvk
        \<and> APIResources rl = rpre @ r # rpost
        \<and> (\<forall>q\<in>set rpre. ResourceKind q \<noteq> Kind gvk)
        \<and> ResourceKind r = Kind gvk"
  then have "\<forall>l\<in>set pre. GroupVersion l = GroupVersion_String gvk \<longrightarrow>
           (\<forall>q\<in>set (APIResources l). ResourceKind q \<noteq> Kind gvk)" by (rule conjunct1)
  then have "isNamespaced gvk (pre @ rl # post) = isNamespaced gvk (rl # post)"
    by (rule isNamespaced_skip)
  moreover from a have "findKind (Kind gvk) (APIResources rl) = Some (Namespaced r)"
    by (simp add: findKind_first)
  ultimately show "isNamespaced gvk (pre @ rl # post) = (Namespaced r, None)"
    using a by simp
qed

theorem isNamespaced_first_match_witness:
  "isNamespaced memcachedGVK shadowed_catalog = isNamespaced memcachedGVK (drop 1 shadowed_catalog)
   \<and> snd (isNamespaced memcachedGVK (take 1 shadowed_catalog)) \<noteq> None
   \<and> isNamespaced memcachedGVK shadowed_catalog = (True, None)"
proof -
  let ?r = "\<lparr>ResourceName = ''memcacheds'', Namespaced = True, ResourceKind = ''Memcached''\<rparr>"
  let ?rpre = "[\<lparr>ResourceName = ''cachepools'', Namespaced = False, ResourceKind = ''CachePool''\<rparr>]"
  let ?rpost = "[\<lparr>ResourceName = ''memcacheds/status'', Namespaced = False, ResourceKind = ''Memcached''\<rparr>]"
  let ?rl = "\<lparr>GroupVersion = ''cache.example.com/v1alpha1'', APIResources = ?rpre @ ?r # ?rpost\<rparr>"
  let ?pre = "take 1 shadowed_catalog"
  let ?post = "drop 2 shadowed_catalog"
  have cat: "shadowed_catalog = ?pre @ ?rl # ?post"
    by (simp add: shadowed_catalog_def)
  have flt: "filter (\<lambda>rl. GroupVersion rl = GroupVersion_String memcachedGVK) shadowed_catalog
               = drop 1 shadowed_catalog"
    by (simp add: shadowed_catalog_def sample_gv)
  have flt': "filter (\<lambda>rl. GroupVersion rl = GroupVersion_String memcachedGVK) (drop 1 shadowed_catalog)
               = drop 1 shadowed_catalog"
    by (simp add: shadowed_catalog_def sample_gv)
  have c1: "isNamespaced memcachedGVK shadowed_catalog = isNamespaced memcachedGVK (drop 1 shadowed_catalog)"
    using isNamespaced_first_match[of memcachedGVK shadowed_catalog] flt by simp
  have h2: "\<forall>rl\<in>set ?pre. \<forall>r\<in>set (APIResources rl).
         ResourceKind r = Kind memcachedGVK \<longrightarrow> GroupVersion rl \<noteq> GroupVersion_String memcachedGVK"
    by (simp add: shadowed_catalog_def sample_gv sample_kind)
  have c2: "snd (isNamespaced memcachedGVK ?pre) \<noteq> None"
    using isNamespaced_first_match[of memcachedGVK ?pre] h2 by blast
  have h3: "(\<forall>l\<in>set ?pre. GroupVersion l = GroupVersion_String memcachedGVK \<longrightarrow>
           (\<forall>q\<in>set (APIResources l). ResourceKind q \<noteq> Kind memcachedGVK))
        \<and> GroupVersion ?rl = GroupVersion_String memcachedGVK
        \<and> APIResources ?rl = ?rpre @ ?r # ?rpost
        \<and> (\<forall>q\<in>set ?rpre. ResourceKind q \<noteq> Kind memcachedGVK)
        \<and> ResourceKind ?r = Kind memcachedGVK"
    by (simp add: shadowed_catalog_def sample_gv sample_kind)
  have "isNamespaced memcachedGVK (?pre @ ?rl # ?post) = (Namespaced ?r, None)"
    using isNamespaced_first_match[of memcachedGVK _ ?pre ?rl ?rpre ?r ?rpost ?post] h3 by blast
  then have c3: "isNamespaced memcachedGVK shadowed_catalog = (True, None)"
    using cat by simp
  from c1 c2 c3 show ?thesis by blast
qed

subsection \<open>The metric family of a kind\<close>

text \<open>
  Claim C1, as amended. For every kind, \<^verbatim>\<open>generateMetricFamilies\<close> returns one family
  generator, a gauge whose name is the lowercased kind followed by \<^verbatim>\<open>_info\<close>; the family it
  generates for a resource instance has one metric, of value 1, whose label keys are
  \<^verbatim>\<open>namespace\<close> and the lowercased kind (not \<^verbatim>\<open>name\<close>), with the instance's namespace and
  name as label values. The lowercased kind is what \<^verbatim>\<open>strings.ToLower\<close> returns, whatever the
  Unicode lowering it falls back on; for an ASCII kind it is the kind with each capital
  replaced by its small letter.
\<close>

theorem generateMetricFamilies_info:
  "map Name (generateMetricFamilies lower kind) = [ToLower lower kind @ ''_info'']
   \<and> map Type (generateMetricFamilies lower kind) = [Gauge]
   \<and> map Help (generateMetricFamilies lower kind) =
       [''Information about the '' @ kind @ '' custom resource.'']
   \<and> map (\<lambda>g. GenerateFunc g (UnstructuredPtr crd)) (generateMetricFamilies lower kind) =
       [Some \<lparr>Metrics = [\<lparr>LabelKeys = [''namespace'', ToLower lower kind],
                           LabelValues = [metadata_namespace crd, metadata_name crd],
                           Value = 1\<rparr>]\<rparr>]
   \<and> (isASCII kind \<longrightarrow> ToLower lower kind = map toLowerByte kind)"
  by (simp add: generateMetricFamilies_def Let_def GetNamespace_def GetName_def ToLower_ASCII)

theorem generateMetricFamilies_info_witness:
  "map Name (generateMetricFamilies (Map_unicode_ToLower sample_env) ''Memcached'') = [''memcached_info'']
   \<and> map (\<lambda>g. GenerateFunc g (UnstructuredPtr \<lparr>metadata_namespace = ''default'', metadata_name = ''example''\<rparr>))
        (generateMetricFamilies (Map_unicode_ToLower sample_env) ''Memcached'') =
       [Some \<lparr>Metrics = [\<lparr>LabelKeys = [''namespace'', ''memcached''],
                           LabelValues = [''default'', ''example''],
                           Value = 1\<rparr>]\<rparr>]
   \<and> isASCII ''Memcached''
   \<and> ToLower (Map_unicode_ToLower sample_env) ''Memcached'' = map toLowerByte ''Memcached''"
proof -
  have l: "ToLower (Map_unicode_ToLower sample_env) ''Memcached'' = ''memcached''"
    by (rule ToLower_Memcached)
  note info = generateMetricFamilies_info[of "Map_unicode_ToLower sample_env" "''Memcached''"
          "\<lparr>metadata_namespace = ''default'', metadata_name = ''example''\<rparr>"]
  from info have "map Name (generateMetricFamilies (Map_unicode_ToLower sample_env) ''Memcached'') =
      [ToLower (Map_unicode_ToLower sample_env) ''Memcached'' @ ''_info'']"
    by (rule conjunct1)
  then have n: "map Name (generateMetricFamilies (Map_unicode_ToLower sample_env) ''Memcached'') =
      [''memcached_info'']"
    by (simp only: l) simp
  from info have "map (\<lambda>g. GenerateFunc g (UnstructuredPtr \<lparr>metadata_namespace = ''default'', metadata_name = ''example''\<rparr>))
        (generateMetricFamilies (Map_unicode_ToLower sample_env) ''Memcached'') =
       [Some \<lparr>Metrics = [\<lparr>LabelKeys = [''namespace'', ToLower (Map_unicode_ToLower sample_env) ''Memcached''],
                           LabelValues = [metadata_namespace \<lparr>metadata_namespace = ''default'', metadata_name = ''example''\<rparr>,
                                          metadata_name \<lparr>metadata_namespace = ''default'', metadata_name = ''example''\<rparr>],
                           Value = 1\<rparr>]\<rparr>]"
    by blast
  then have g: "map (\<lambda>g. GenerateFunc g (UnstructuredPtr \<lparr>metadata_namespace = ''default'', metadata_name = ''example''\<rparr>))
        (generateMetricFamilies (Map_unicode_ToLower sample_env) ''Memcached'') =
       [Some \<lparr>Metrics = [\<lparr>LabelKeys = [''namespace'', ''memcached''],
                           LabelValues = [''default'', ''example''],
                           Value = 1\<rparr>]\<rparr>]"
    by (simp only: l Unstructured.simps)
  from info Memcached_ASCII
  have a: "ToLower (Map_unicode_ToLower sample_env) ''Memcached'' = map toLowerByte ''Memcached''"
    by blast
  from n g Memcached_ASCII a show ?thesis by (intro conjI)
qed

text \<open>
  The claim as first stated gives the label keys as \<^verbatim>\<open>namespace\<close> and \<^verbatim>\<open>name\<close>. For the
  kind \<^verbatim>\<open>Memcached\<close> the keys are \<^verbatim>\<open>namespace\<close> and \<^verbatim>\<open>memcached\<close>, and \<^verbatim>\<open>name\<close> is not
  among them. The kind is ASCII, so this holds with every Unicode lowering.
\<close>

lemma Memcached_label_keys:
  "map (\<lambda>g. map_option (\<lambda>f. map LabelKeys (Metrics f)) (GenerateFunc g (UnstructuredPtr crd)))
     (generateMetricFamilies lower ''Memcached'') = [Some [[''namespace'', ''memcached'']]]"
  by (simp add: generateMetricFamilies_def Let_def ToLower_Memcached)

theorem generateMetricFamilies_label_keys_counterexample:
  "LabelKeys (hd (Metrics (the (GenerateFunc
      (hd (generateMetricFamilies (Map_unicode_ToLower sample_env) ''Memcached''))
      (UnstructuredPtr \<lparr>metadata_namespace = ''default'', metadata_name = ''example''\<rparr>)))))
     = [''namespace'', ''memcached'']
   \<and> ''name'' \<notin> set (LabelKeys (hd (Metrics (the (GenerateFunc
      (hd (generateMetricFamilies (Map_unicode_ToLower sample_env) ''Memcached''))
      (UnstructuredPtr \<lparr>metadata_namespace = ''default'', metadata_name = ''example''\<rparr>))))))"
  by (simp add: generateMetricFamilies_def Let_def ToLower_Memcached)

subsection \<open>The namespaces to export metrics for\<close>

text \<open>
  Claim C9. When the lookup of the watch namespace returns no error,
  \<^verbatim>\<open>GetNamespacesForMetrics\<close> returns no error and a list that is not empty: the operator's
  namespace alone when the watch namespace has no comma (the empty watch namespace
  included), and the watch namespace split at its commas when it has one (the operator's
  namespace plays no part then). The split has one more piece than the value has commas,
  no piece has a comma, and the pieces joined by commas are the value again. When the
  lookup returns an error, that error is returned with a nil list, so the function
  succeeds exactly when the lookup does.
\<close>

theorem GetNamespacesForMetrics_success:
  "GetNamespacesForMetrics (watchNamespace, None) operatorNs =
     (if CHR '','' \<in> set watchNamespace then Split watchNamespace '','' else [operatorNs], None)
   \<and> fst (GetNamespacesForMetrics (watchNamespace, None) operatorNs) \<noteq> []
   \<and> (CHR '','' \<in> set watchNamespace \<longrightarrow>
         length (Split watchNamespace '','') = Suc (count_list watchNamespace CHR '','') \<and>
         (\<forall>p\<in>set (Split watchNamespace '',''). CHR '','' \<notin> set p) \<and>
         Join (Split watchNamespace '','') '','' = watchNamespace)
   \<and> GetNamespacesForMetrics (watchNamespace, Some e) operatorNs = ([], Some e)"
proof -
  have sep: "'','' \<noteq> ([]::string)" by simp
  have r: "GetNamespacesForMetrics (watchNamespace, None) operatorNs =
     (if CHR '','' \<in> set watchNamespace then Split watchNamespace '','' else [operatorNs], None)"
    by (simp add: GetNamespacesForMetrics_def Contains_single)
  have n: "fst (GetNamespacesForMetrics (watchNamespace, None) operatorNs) \<noteq> []"
    using Split_nonempty[OF sep, of watchNamespace] by (simp add: r)
  have j: "Join (Split watchNamespace '','') '','' = watchNamespace"
    using sep by (rule Join_Split)
  have f: "GetNamespacesForMetrics (watchNamespace, Some e) operatorNs = ([], Some e)"
    by (simp add: GetNamespacesForMetrics_def)
  from r n j f Split_comma[of watchNamespace] show ?thesis by blast
qed

theorem GetNamespacesForMetrics_success_witness:
  "GetNamespacesForMetrics (''team-a,team-b'', None) ''operators'' = ([''team-a'', ''team-b''], None)
   \<and> Join [''team-a'', ''team-b''] '','' = ''team-a,team-b''
   \<and> GetNamespacesForMetrics (''team-a'', None) ''operators'' = ([''operators''], None)
   \<and> GetNamespacesForMetrics ([], None) ''operators'' = ([''operators''], None)
   \<and> GetNamespacesForMetrics ([], Some (LibraryError ''WATCH_NAMESPACE must be set'')) ''operators'' =
        ([], Some (LibraryError ''WATCH_NAMESPACE must be set''))"
proof -
  have c: "CHR '','' \<in> set ''team-a,team-b''" by simp
  from GetNamespacesForMetrics_success[of "''team-a,team-b''" "''operators''"] c
  have "GetNamespacesForMetrics (''team-a,team-b'', None) ''operators'' =
          (Split ''team-a,team-b'' '','', None)"
    and "Join (Split ''team-a,team-b'' '','') '','' = ''team-a,team-b''"
    by simp_all
  then have a: "GetNamespacesForMetrics (''team-a,team-b'', None) ''operators'' = ([''team-a'', ''team-b''], None)"
    and j: "Join [''team-a'', ''team-b''] '','' = ''team-a,team-b''"
    by (simp_all only: Split_example)
  have n: "CHR '','' \<notin> set ''team-a''" by simp
  from GetNamespacesForMetrics_success[of "''team-a''" "''operators''"] n
  have b: "GetNamespacesForMetrics (''team-a'', None) ''operators'' = ([''operators''], None)"
    by simp
  from GetNamespacesForMetrics_success[of "[]" "''operators''"]
  have e: "GetNamespacesForMetrics ([], None) ''operators'' = ([''operators''], None)"
    by simp
  from GetNamespacesForMetrics_success[of "[]" "''operators''" "LibraryError ''WATCH_NAMESPACE must be set''"]
  have f: "GetNamespacesForMetrics ([], Some (LibraryError ''WATCH_NAMESPACE must be set'')) ''operators'' =
        ([], Some (LibraryError ''WATCH_NAMESPACE must be set''))"
    by blast
  from a j b e f show ?thesis by (intro conjI)
qed

subsection \<open>The loop over the GVKs\<close>

lemma gvkBody_client_error:
  assumes "newClientForGVK env cfg cat (GroupVersion_String gvk) (Kind gvk) w = ((dclient, Some e), w1)"
  shows "gvkBody env cfg ns cat gvk w = (Some e, [], clientEvents cfg cat gvk, w1)"
  using assms by (simp add: gvkBody_def Let_def clientEvents_def)

lemma gvkBody_classify_error:
  assumes "newClientForGVK env cfg cat (GroupVersion_String gvk) (Kind gvk) w = ((dclient, None), w1)"
    and "isNamespaced gvk cat = (b, Some e)"
  shows "gvkBody env cfg ns cat gvk w = (Some e, [], clientEvents cfg cat gvk, w1)"
  using assms by (simp add: gvkBody_def Let_def clientEvents_def)

lemma gvkBody_namespaced:
  assumes "newClientForGVK env cfg cat (GroupVersion_String gvk) (Kind gvk) w = ((dclient, None), w1)"
    and "isNamespaced gvk cat = (True, None)"
    and "NewNamespacedMetricsStores env dclient ns (GroupVersion_String gvk) (Kind gvk)
           (generateMetricFamilies (Map_unicode_ToLower env) (Kind gvk)) w1 = (stores, w2)"
  shows "gvkBody env cfg ns cat gvk w =
           (None, stores,
            clientEvents cfg cat gvk @
              [Call_NewNamespacedMetricsStores dclient ns (GroupVersion_String gvk) (Kind gvk)
                 (generateMetricFamilies (Map_unicode_ToLower env) (Kind gvk)) stores], w2)"
  using assms by (simp add: gvkBody_def Let_def clientEvents_def)

lemma gvkBody_cluster:
  assumes "newClientForGVK env cfg cat (GroupVersion_String gvk) (Kind gvk) w = ((dclient, None), w1)"
    and "isNamespaced gvk cat = (False, None)"
    and "NewClusterScopedMetricsStores env dclient (GroupVersion_String gvk) (Kind gvk)
           (generateMetricFamilies (Map_unicode_ToLower env) (Kind gvk)) w1 = (stores, w2)"
  shows "gvkBody env cfg ns cat gvk w =
           (None, stores,
            clientEvents cfg cat gvk @
              [Call_NewClusterScopedMetricsStores dclient (GroupVersion_String gvk) (Kind gvk)
                 (generateMetricFamilies (Map_unicode_ToLower env) (Kind gvk)) stores], w2)"
  using assms by (simp add: gvkBody_def Let_def clientEvents_def)

lemma clientEvents_plain:
  "filter isStoreCall (clientEvents cfg cat gvk) = []"
  "\<forall>x\<in>set (clientEvents cfg cat gvk). \<not> isServe x \<and> \<not> isFetch x"
  by (simp_all add: clientEvents_def)

lemma gvkBody_events:
  assumes "gvkBody env cfg ns cat gvk w = (r, stores, evs, w')"
  shows "(\<forall>x\<in>set evs. \<not> isServe x \<and> \<not> isFetch x) \<and>
         (case r of
            Some e \<Rightarrow> filter isStoreCall evs = []
          | None \<Rightarrow> (\<exists>ev. filter isStoreCall evs = [ev] \<and> storeCallFor (Map_unicode_ToLower env) ns cat gvk ev \<and> storesOf ev = stores))"
proof -
  obtain dclient err w1 where cl:
    "newClientForGVK env cfg cat (GroupVersion_String gvk) (Kind gvk) w = ((dclient, err), w1)"
    by (metis surj_pair)
  obtain b cerr where cls: "isNamespaced gvk cat = (b, cerr)" by (metis surj_pair)
  show ?thesis
  proof (cases err)
    case (Some e)
    from gvkBody_client_error[OF cl[unfolded Some], of ns] assms
    show ?thesis by (auto simp: clientEvents_plain)
  next
    case None
    note cl' = cl[unfolded None]
    show ?thesis
    proof (cases cerr)
      case (Some e)
      from gvkBody_classify_error[OF cl' cls[unfolded Some], of ns] assms
      show ?thesis by (auto simp: clientEvents_plain)
    next
      case cnone: None
      show ?thesis
      proof (cases b)
        case True
        obtain st w2 where st: "NewNamespacedMetricsStores env dclient ns (GroupVersion_String gvk) (Kind gvk)
           (generateMetricFamilies (Map_unicode_ToLower env) (Kind gvk)) w1 = (st, w2)" by (metis surj_pair)
        have cls': "isNamespaced gvk cat = (True, None)" using cls cnone True by simp
        from gvkBody_namespaced[OF cl' cls' st] assms cls'
        show ?thesis by (auto simp: clientEvents_plain)
      next
        case False
        obtain st w2 where st: "NewClusterScopedMetricsStores env dclient (GroupVersion_String gvk) (Kind gvk)
           (generateMetricFamilies (Map_unicode_ToLower env) (Kind gvk)) w1 = (st, w2)" by (metis surj_pair)
        have cls': "isNamespaced gvk cat = (False, None)" using cls cnone False by simp
        from gvkBody_cluster[OF cl' cls' st] assms cls'
        show ?thesis by (auto simp: clientEvents_plain)
      qed
    qed
  qed
qed

lemma gvkLoop_append:
  "gvkLoop env cfg ns cat (pre @ rest) acc w =
     (case gvkLoop env cfg ns cat pre acc w of
        (Some e, all1, evs, w1) \<Rightarrow> (Some e, all1, evs, w1)
      | (None, all1, evs, w1) \<Rightarrow>
          (case gvkLoop env cfg ns cat rest all1 w1 of
             (r, all2, evs', w2) \<Rightarrow> (r, all2, evs @ evs', w2)))"
proof (induction pre arbitrary: acc w)
  case Nil
  show ?case by (simp split: prod.splits)
next
  case (Cons g pre)
  obtain r st evg w1 where b: "gvkBody env cfg ns cat g w = (r, st, evg, w1)"
    by (metis prod_cases4)
  show ?case
  proof (cases r)
    case (Some e)
    with b show ?thesis by simp
  next
    case None
    with b Cons[of "acc @ [st]" w1] show ?thesis
      by (simp split: prod.splits option.splits)
  qed
qed

lemma gvkLoop_fail_at:
  assumes "gvkLoop env cfg ns cat pre acc w = (None, all1, evs, w1)"
    and "gvkBody env cfg ns cat g w1 = (Some e, st, evg, w2)"
  shows "gvkLoop env cfg ns cat (pre @ g # post) acc w = (Some e, all1, evs @ evg, w2)"
  using assms by (simp add: gvkLoop_append)

lemma gvkLoop_events:
  assumes "gvkLoop env cfg ns cat gvks acc w = (r, all', evs, w')"
  shows "(\<forall>x\<in>set evs. \<not> isServe x \<and> \<not> isFetch x) \<and>
         all' = acc @ map storesOf (filter isStoreCall evs) \<and>
         length (filter isStoreCall evs) \<le> length gvks \<and>
         list_all2 (storeCallFor (Map_unicode_ToLower env) ns cat) (take (length (filter isStoreCall evs)) gvks)
           (filter isStoreCall evs) \<and>
         (r = None \<longleftrightarrow> length (filter isStoreCall evs) = length gvks)"
  using assms
proof (induction gvks arbitrary: acc w r all' evs w')
  case Nil
  then show ?case by auto
next
  case (Cons g gvks)
  obtain rb st evg w1 where b: "gvkBody env cfg ns cat g w = (rb, st, evg, w1)"
    by (metis prod_cases4)
  note be = gvkBody_events[OF b]
  show ?case
  proof (cases rb)
    case (Some e)
    with b Cons.prems have "r = Some e" "all' = acc" "evs = evg" by simp_all
    with be Some show ?thesis by simp
  next
    case None
    obtain r2 all2 evs2 w2 where l: "gvkLoop env cfg ns cat gvks (acc @ [st]) w1 = (r2, all2, evs2, w2)"
      by (metis prod_cases4)
    from b None l Cons.prems have eq: "r = r2" "all' = all2" "evs = evg @ evs2" by simp_all
    from be None obtain ev where ev: "filter isStoreCall evg = [ev]" "storeCallFor (Map_unicode_ToLower env) ns cat g ev"
      "storesOf ev = st" and plain: "\<forall>x\<in>set evg. \<not> isServe x \<and> \<not> isFetch x" by auto
    note ih = Cons.IH[OF l]
    from ih plain eq have 1: "\<forall>x\<in>set evs. \<not> isServe x \<and> \<not> isFetch x" by auto
    from ih ev eq have 2: "all' = acc @ map storesOf (filter isStoreCall evs)" by simp
    from ih ev eq have 3: "length (filter isStoreCall evs) \<le> length (g # gvks)" by simp
    from ih ev eq have 4: "list_all2 (storeCallFor (Map_unicode_ToLower env) ns cat)
        (take (length (filter isStoreCall evs)) (g # gvks)) (filter isStoreCall evs)" by simp
    from ih ev eq have 5: "r = None \<longleftrightarrow> length (filter isStoreCall evs) = length (g # gvks)" by simp
    from 1 2 3 4 5 show ?thesis by blast
  qed
qed

text \<open>The loop returns no error exactly on the success path.\<close>

lemma gvkBody_matched:
  assumes "newClientForGVK env cfg cat (GroupVersion_String g) (Kind g) w = ((dclient, None), w1)"
    and "matchingResources g cat \<noteq> []"
  shows "\<exists>stores evs. gvkBody env cfg ns cat g w =
           (None, stores, evs,
            snd (if Namespaced (hd (matchingResources g cat))
                 then NewNamespacedMetricsStores env dclient ns (GroupVersion_String g) (Kind g)
                        (generateMetricFamilies (Map_unicode_ToLower env) (Kind g)) w1
                 else NewClusterScopedMetricsStores env dclient (GroupVersion_String g) (Kind g)
                        (generateMetricFamilies (Map_unicode_ToLower env) (Kind g)) w1))"
proof -
  from assms(2) obtain q qs where m: "matchingResources g cat = q # qs"
    by (cases "matchingResources g cat") auto
  then have cls: "isNamespaced g cat = (Namespaced q, None)"
    by (simp add: isNamespaced_matching[of g cat] del: isNamespaced.simps)
  show ?thesis
  proof (cases "Namespaced q")
    case True
    with cls have c: "isNamespaced g cat = (True, None)" by simp
    have st: "NewNamespacedMetricsStores env dclient ns (GroupVersion_String g) (Kind g)
                (generateMetricFamilies (Map_unicode_ToLower env) (Kind g)) w1 =
              (fst (NewNamespacedMetricsStores env dclient ns (GroupVersion_String g) (Kind g)
                (generateMetricFamilies (Map_unicode_ToLower env) (Kind g)) w1),
               snd (NewNamespacedMetricsStores env dclient ns (GroupVersion_String g) (Kind g)
                (generateMetricFamilies (Map_unicode_ToLower env) (Kind g)) w1))"
      by simp
    from gvkBody_namespaced[OF assms(1) c st] m True show ?thesis by simp
  next
    case False
    with cls have c: "isNamespaced g cat = (False, None)" by simp
    have st: "NewClusterScopedMetricsStores env dclient (GroupVersion_String g) (Kind g)
                (generateMetricFamilies (Map_unicode_ToLower env) (Kind g)) w1 =
              (fst (NewClusterScopedMetricsStores env dclient (GroupVersion_String g) (Kind g)
                (generateMetricFamilies (Map_unicode_ToLower env) (Kind g)) w1),
               snd (NewClusterScopedMetricsStores env dclient (GroupVersion_String g) (Kind g)
                (generateMetricFamilies (Map_unicode_ToLower env) (Kind g)) w1))"
      by simp
    from gvkBody_cluster[OF assms(1) c st] m False show ?thesis by simp
  qed
qed

lemma gvkBody_unmatched:
  assumes "newClientForGVK env cfg cat (GroupVersion_String g) (Kind g) w = ((dclient, None), w1)"
    and "matchingResources g cat = []"
  shows "\<exists>e. gvkBody env cfg ns cat g w = (Some e, [], clientEvents cfg cat g, w1)"
proof -
  from assms(2) have "isNamespaced g cat = isNamespaced g []"
    by (simp add: isNamespaced_matching[of g cat] del: isNamespaced.simps)
  then obtain e where "isNamespaced g cat = (False, Some e)" by simp
  from gvkBody_classify_error[OF assms(1) this] show ?thesis by blast
qed

lemma gvkLoop_None_iff:
  "fst (gvkLoop env cfg ns cat gvks acc w) = None \<longleftrightarrow> collaboratorsSucceed env cfg ns cat gvks w"
proof (induction gvks arbitrary: acc w)
  case Nil
  show ?case by simp
next
  case (Cons g gs)
  obtain dclient err w1 where cl:
    "newClientForGVK env cfg cat (GroupVersion_String g) (Kind g) w = ((dclient, err), w1)"
    by (metis surj_pair)
  show ?case
  proof (cases err)
    case (Some e)
    from gvkBody_client_error[OF cl[unfolded Some], of ns] cl Some show ?thesis by simp
  next
    case None
    note cl' = cl[unfolded None]
    show ?thesis
    proof (cases "matchingResources g cat = []")
      case True
      from gvkBody_unmatched[OF cl' True, of ns] obtain e where
        "gvkBody env cfg ns cat g w = (Some e, [], clientEvents cfg cat g, w1)" by blast
      with cl' True show ?thesis by simp
    next
      case False
      from gvkBody_matched[OF cl' False, of ns] obtain stores evs where
        b: "gvkBody env cfg ns cat g w =
           (None, stores, evs,
            snd (if Namespaced (hd (matchingResources g cat))
                 then NewNamespacedMetricsStores env dclient ns (GroupVersion_String g) (Kind g)
                        (generateMetricFamilies (Map_unicode_ToLower env) (Kind g)) w1
                 else NewClusterScopedMetricsStores env dclient (GroupVersion_String g) (Kind g)
                        (generateMetricFamilies (Map_unicode_ToLower env) (Kind g)) w1))"
        by blast
      let ?w2 = "snd (if Namespaced (hd (matchingResources g cat))
                 then NewNamespacedMetricsStores env dclient ns (GroupVersion_String g) (Kind g)
                        (generateMetricFamilies (Map_unicode_ToLower env) (Kind g)) w1
                 else NewClusterScopedMetricsStores env dclient (GroupVersion_String g) (Kind g)
                        (generateMetricFamilies (Map_unicode_ToLower env) (Kind g)) w1)"
      have "fst (gvkLoop env cfg ns cat (g # gs) acc w) =
              fst (gvkLoop env cfg ns cat gs (acc @ [stores]) ?w2)"
        using b by (simp split: prod.splits)
      also have "\<dots> = None \<longleftrightarrow> collaboratorsSucceed env cfg ns cat gs ?w2"
        by (rule Cons.IH)
      finally show ?thesis using cl' False by simp
    qed
  qed
qed


subsection \<open>The entry point\<close>

text \<open>The three ways the entry point ends once it has namespaces, and the sample runs.\<close>

lemma entry_fetch_error:
  assumes "ns \<noteq> []" and "getAPIResourceLists env cfg w = ((partial, Some e), w1)"
  shows "GenerateAndServeCRMetrics env cfg ns gvks host port w = (Some e, fetchEvents cfg, w1)"
  using assms by (cases ns) (simp_all add: GenerateAndServeCRMetrics_def fetchEvents_def)

lemma entry_loop_error:
  assumes "ns \<noteq> []" and "getAPIResourceLists env cfg w = ((cat, None), w1)"
    and "gvkLoop env cfg ns cat gvks [] w1 = (Some e, allStores, evs, w2)"
  shows "GenerateAndServeCRMetrics env cfg ns gvks host port w = (Some e, fetchEvents cfg @ evs, w2)"
  using assms by (cases ns) (simp_all add: GenerateAndServeCRMetrics_def fetchEvents_def)

lemma entry_success:
  assumes "ns \<noteq> []" and "getAPIResourceLists env cfg w = ((cat, None), w1)"
    and "gvkLoop env cfg ns cat gvks [] w1 = (None, allStores, evs, w2)"
  shows "GenerateAndServeCRMetrics env cfg ns gvks host port w =
           (None,
            fetchEvents cfg @ evs @
              [LogInfo ''Starting serving custom resource metrics'' [],
               Go_ServeMetrics allStores host port],
            w2)"
  using assms by (cases ns) (simp_all add: GenerateAndServeCRMetrics_def fetchEvents_def)

lemma fetchEvents_plain:
  "filter isStoreCall (fetchEvents cfg) = []"
  "\<forall>x\<in>set (fetchEvents cfg). \<not> isServe x"
  by (simp_all add: fetchEvents_def)

lemma gvkBody_error_at:
  assumes "newClientForGVK env cfg cat (GroupVersion_String g) (Kind g) w = ((dclient, err), w1)"
    and "err = Some e \<or> err = None \<and> snd (isNamespaced g cat) = Some e"
  shows "gvkBody env cfg ns cat g w = (Some e, [], clientEvents cfg cat g, w1)"
proof (cases err)
  case (Some e')
  with assms(2) have "err = Some e" by simp
  with assms(1) show ?thesis by (simp add: gvkBody_client_error)
next
  case None
  with assms(2) have "snd (isNamespaced g cat) = Some e" by simp
  then have "isNamespaced g cat = (fst (isNamespaced g cat), Some e)"
    by (metis prod.collapse)
  with assms(1) None show ?thesis using gvkBody_classify_error by metis
qed

lemma entry_run:
  assumes "ns \<noteq> []" and "getAPIResourceLists env cfg w = ((cat, None), w1)"
    and "GenerateAndServeCRMetrics env cfg ns gvks host port w = (r, evs, w')"
  shows "\<exists>allStores levs. gvkLoop env cfg ns cat gvks [] w1 = (r, allStores, levs, w') \<and>
           evs = fetchEvents cfg @ levs @
             (if r = None then [LogInfo ''Starting serving custom resource metrics'' [],
                                Go_ServeMetrics allStores host port] else [])"
proof -
  obtain r2 all2 levs w2 where l: "gvkLoop env cfg ns cat gvks [] w1 = (r2, all2, levs, w2)"
    by (metis prod_cases4)
  show ?thesis
  proof (cases r2)
    case None
    from entry_success[OF assms(1,2) l[unfolded None], of host port] assms(3) l None
    show ?thesis by simp
  next
    case (Some e)
    from entry_loop_error[OF assms(1,2) l[unfolded Some], of host port] assms(3) l Some
    show ?thesis by simp
  qed
qed


lemma entry_serves_last:
  assumes "GenerateAndServeCRMetrics env cfg ns gvks host port w = (r, evs, w')"
  shows "(r = None \<longrightarrow>
            (\<exists>before. evs = before @ [LogInfo ''Starting serving custom resource metrics'' [],
                                        Go_ServeMetrics (map storesOf (filter isStoreCall before)) host port]
               \<and> (\<forall>x\<in>set before. \<not> isServe x)
               \<and> length (filter isStoreCall before) = length gvks))
       \<and> (r \<noteq> None \<longrightarrow> (\<forall>x\<in>set evs. \<not> isServe x))"
proof (cases "ns = []")
  case True
  with assms show ?thesis by (auto simp: GenerateAndServeCRMetrics_def)
next
  case ns: False
  obtain cat err w1 where f: "getAPIResourceLists env cfg w = ((cat, err), w1)"
    by (metis surj_pair)
  show ?thesis
  proof (cases err)
    case (Some e)
    from entry_fetch_error[OF ns f[unfolded Some], of gvks host port] assms
    show ?thesis using fetchEvents_plain(2)[of cfg] by auto
  next
    case None
    from entry_run[OF ns f[unfolded None] assms] obtain allStores levs where
      l: "gvkLoop env cfg ns cat gvks [] w1 = (r, allStores, levs, w')" and
      evs: "evs = fetchEvents cfg @ levs @
             (if r = None then [LogInfo ''Starting serving custom resource metrics'' [],
                                Go_ServeMetrics allStores host port] else [])" by blast
    note le = gvkLoop_events[OF l]
    from le have plain: "\<forall>x\<in>set (fetchEvents cfg @ levs). \<not> isServe x"
      using fetchEvents_plain(2)[of cfg] by auto
    show ?thesis
    proof (intro conjI impI)
      assume r: "r = None"
      with le have n: "length (filter isStoreCall (fetchEvents cfg @ levs)) = length gvks"
        by (simp add: fetchEvents_plain)
      from le have a: "allStores = map storesOf (filter isStoreCall (fetchEvents cfg @ levs))"
        by (simp add: fetchEvents_plain)
      from evs r have "evs = (fetchEvents cfg @ levs) @
          [LogInfo ''Starting serving custom resource metrics'' [],
           Go_ServeMetrics allStores host port]" by simp
      with a have "evs = (fetchEvents cfg @ levs) @
          [LogInfo ''Starting serving custom resource metrics'' [],
           Go_ServeMetrics (map storesOf (filter isStoreCall (fetchEvents cfg @ levs))) host port]"
        by (simp only:)
      with plain n show "\<exists>before. evs = before @ [LogInfo ''Starting serving custom resource metrics'' [],
                                        Go_ServeMetrics (map storesOf (filter isStoreCall before)) host port]
               \<and> (\<forall>x\<in>set before. \<not> isServe x)
               \<and> length (filter isStoreCall before) = length gvks"
        by blast
    next
      assume "r \<noteq> None"
      with evs have "evs = fetchEvents cfg @ levs" by simp
      with plain show "\<forall>x\<in>set evs. \<not> isServe x" by simp
    qed
  qed
qed

lemma entry_None_iff:
  assumes "ns \<noteq> []" and "getAPIResourceLists env cfg w = ((cat, None), w1)"
  shows "fst (GenerateAndServeCRMetrics env cfg ns gvks host port w) = None \<longleftrightarrow>
           collaboratorsSucceed env cfg ns cat gvks w1"
proof -
  have run: "GenerateAndServeCRMetrics env cfg ns gvks host port w =
               (fst (GenerateAndServeCRMetrics env cfg ns gvks host port w),
                fst (snd (GenerateAndServeCRMetrics env cfg ns gvks host port w)),
                snd (snd (GenerateAndServeCRMetrics env cfg ns gvks host port w)))"
    by simp
  from entry_run[OF assms run] obtain allStores levs where
    "gvkLoop env cfg ns cat gvks [] w1 =
       (fst (GenerateAndServeCRMetrics env cfg ns gvks host port w), allStores, levs,
        snd (snd (GenerateAndServeCRMetrics env cfg ns gvks host port w)))"
    by blast
  then have "fst (gvkLoop env cfg ns cat gvks [] w1) =
               fst (GenerateAndServeCRMetrics env cfg ns gvks host port w)"
    by simp
  with gvkLoop_None_iff[of env cfg ns cat gvks "[]" w1] show ?thesis by simp
qed

lemma entry_None_only_if:
  assumes "fst (GenerateAndServeCRMetrics env cfg ns gvks host port w) = None"
  shows "ns \<noteq> [] \<and>
         (\<exists>cat w1. getAPIResourceLists env cfg w = ((cat, None), w1) \<and>
                    collaboratorsSucceed env cfg ns cat gvks w1)"
proof -
  from assms have ns: "ns \<noteq> []"
    by (auto simp: GenerateAndServeCRMetrics_def)
  obtain cat err w1 where f: "getAPIResourceLists env cfg w = ((cat, err), w1)"
    by (metis surj_pair)
  have "err = None"
  proof (cases err)
    case None
    then show ?thesis .
  next
    case (Some e)
    from entry_fetch_error[OF ns f[unfolded Some], of gvks host port] assms show ?thesis by simp
  qed
  with f have f': "getAPIResourceLists env cfg w = ((cat, None), w1)" by simp
  from entry_None_iff[OF ns f', of gvks host port] assms
  have "collaboratorsSucceed env cfg ns cat gvks w1" by simp
  with ns f' show ?thesis by blast
qed

lemma sample_fetch:
  "getAPIResourceLists sample_env ''unreachable'' w = (([], Some (LibraryError ''connection refused'')), Suc w)"
  "getAPIResourceLists sample_env ''https://10.0.0.1'' w = ((sample_catalog, None), Suc w)"
  by (simp_all add: sample_env_def)

lemma sample_client:
  "newClientForGVK sample_env cfg cat (GroupVersion_String memcachedGVK) (Kind memcachedGVK) w =
     ((''cache.example.com/v1alpha1 Memcached'', None), Suc w)"
  "newClientForGVK sample_env cfg cat (GroupVersion_String cachePoolGVK) (Kind cachePoolGVK) w =
     ((''cache.example.com/v1alpha1 CachePool'', None), Suc w)"
  "newClientForGVK sample_env cfg cat (GroupVersion_String ghostGVK) (Kind ghostGVK) w =
     ((''cache.example.com/v1alpha1 Ghost'', None), Suc w)"
  "newClientForGVK sample_env cfg cat (GroupVersion_String brokenGVK) (Kind brokenGVK) w =
     (([], Some (LibraryError ''no client for Broken'')), Suc w)"
  by (simp_all add: sample_env_def sample_gv sample_kind)

lemma sample_scope:
  "isNamespaced memcachedGVK sample_catalog = (True, None)"
  "isNamespaced cachePoolGVK sample_catalog = (False, None)"
  "isNamespaced ghostGVK sample_catalog =
     (False, Some (ErrorsNew ''unable to find type: cache.example.com/v1alpha1, Kind=Ghost in server''))"
  by (simp_all add: sample_catalog_def sample_gv sample_kind GroupVersionKind_String_def ghostGVK_def)

lemma sample_body_memcached:
  "gvkBody sample_env cfg [''team-a'', ''team-b''] sample_catalog memcachedGVK w =
     (None, [''team-a/Memcached'', ''team-b/Memcached''],
      clientEvents cfg sample_catalog memcachedGVK @
        [Call_NewNamespacedMetricsStores ''cache.example.com/v1alpha1 Memcached'' [''team-a'', ''team-b'']
           (GroupVersion_String memcachedGVK) (Kind memcachedGVK)
           (generateMetricFamilies (Map_unicode_ToLower sample_env) (Kind memcachedGVK)) [''team-a/Memcached'', ''team-b/Memcached'']],
      Suc (Suc (Suc w)))"
  by (rule gvkBody_namespaced[OF sample_client(1) sample_scope(1)])
     (simp add: sample_env_def sample_kind)



lemma sample_run_ghost:
  "GenerateAndServeCRMetrics sample_env ''https://10.0.0.1'' [''team-a'', ''team-b'']
     [memcachedGVK, ghostGVK, cachePoolGVK] ''0.0.0.0'' 8383 (0::nat) =
     (Some (ErrorsNew ''unable to find type: cache.example.com/v1alpha1, Kind=Ghost in server''),
      fetchEvents ''https://10.0.0.1'' @
      clientEvents ''https://10.0.0.1'' sample_catalog memcachedGVK @
        [Call_NewNamespacedMetricsStores ''cache.example.com/v1alpha1 Memcached'' [''team-a'', ''team-b'']
           (GroupVersion_String memcachedGVK) (Kind memcachedGVK)
           (generateMetricFamilies (Map_unicode_ToLower sample_env) (Kind memcachedGVK)) [''team-a/Memcached'', ''team-b/Memcached'']] @
      clientEvents ''https://10.0.0.1'' sample_catalog ghostGVK,
      5)"
proof -
  have b: "gvkBody sample_env ''https://10.0.0.1'' [''team-a'', ''team-b''] sample_catalog ghostGVK w =
             (Some (ErrorsNew ''unable to find type: cache.example.com/v1alpha1, Kind=Ghost in server''),
              [], clientEvents ''https://10.0.0.1'' sample_catalog ghostGVK, Suc w)" for w
    by (rule gvkBody_classify_error[OF sample_client(3) sample_scope(3)])
  have "gvkLoop sample_env ''https://10.0.0.1'' [''team-a'', ''team-b''] sample_catalog
          [memcachedGVK, ghostGVK, cachePoolGVK] [] (Suc 0) =
        (Some (ErrorsNew ''unable to find type: cache.example.com/v1alpha1, Kind=Ghost in server''),
         [[''team-a/Memcached'', ''team-b/Memcached'']],
         clientEvents ''https://10.0.0.1'' sample_catalog memcachedGVK @
        [Call_NewNamespacedMetricsStores ''cache.example.com/v1alpha1 Memcached'' [''team-a'', ''team-b'']
           (GroupVersion_String memcachedGVK) (Kind memcachedGVK)
           (generateMetricFamilies (Map_unicode_ToLower sample_env) (Kind memcachedGVK)) [''team-a/Memcached'', ''team-b/Memcached'']] @
         clientEvents ''https://10.0.0.1'' sample_catalog ghostGVK, 5)"
    by (simp add: sample_body_memcached b eval_nat_numeral)
  from entry_loop_error[OF _ sample_fetch(2) this, of "''0.0.0.0''" 8383] show ?thesis
    by simp
qed

lemma sample_matching:
  "matchingResources memcachedGVK sample_catalog =
     [\<lparr>ResourceName = ''memcacheds'', Namespaced = True, ResourceKind = ''Memcached''\<rparr>]"
  "matchingResources cachePoolGVK sample_catalog =
     [\<lparr>ResourceName = ''cachepools'', Namespaced = False, ResourceKind = ''CachePool''\<rparr>]"
  "matchingResources ghostGVK sample_catalog = []"
  by (simp_all add: matchingResources_def sample_catalog_def sample_gv sample_kind)

lemma sample_success:
  "collaboratorsSucceed sample_env cfg ns sample_catalog [memcachedGVK, cachePoolGVK] w"
  by (simp add: sample_client sample_matching)


lemma sample_no_success:
  "\<not> collaboratorsSucceed sample_env cfg ns sample_catalog [memcachedGVK, ghostGVK, cachePoolGVK] w"
  by (simp add: sample_client sample_matching)


text \<open>
  Claim C2. With a nil or empty list of namespaces \<^verbatim>\<open>GenerateAndServeCRMetrics\<close> returns
  the error about empty namespaces at once: the run has no event (nothing is logged, the
  catalog is not fetched, no client and no store is made, the server is not started) and
  the world is as it was.
\<close>

theorem GenerateAndServeCRMetrics_no_namespaces:
  "GenerateAndServeCRMetrics env cfg [] operatorGVKs host port w =
     (Some (ErrorsNew
        ''namespaces were empty; pass at least one namespace to generate custom resource metrics''),
      [], w)"
  by (simp add: GenerateAndServeCRMetrics_def)

theorem GenerateAndServeCRMetrics_no_namespaces_witness:
  "GenerateAndServeCRMetrics sample_env ''https://10.0.0.1'' [] [memcachedGVK, cachePoolGVK]
     ''0.0.0.0'' 8383 (0::nat) =
     (Some (ErrorsNew
        ''namespaces were empty; pass at least one namespace to generate custom resource metrics''),
      [], 0)"
  by (rule GenerateAndServeCRMetrics_no_namespaces)

text \<open>
  Claim C5. With namespaces given, the first error ends the run. When the fetch of the
  catalog fails, its error is returned after the fetch alone. When the GVKs before
  \<open>g\<close> went through the loop and then the client for \<open>g\<close> cannot be made, or it
  is made and \<open>g\<close> cannot be classified, that error is returned: the events of the run
  are the fetch, the events of the GVKs before \<open>g\<close>, and the one attempt to make the
  client for \<open>g\<close>. So the stores built are those of the GVKs before \<open>g\<close>, one call
  each, none for \<open>g\<close> or a later GVK; nothing is tried twice; and \<^verbatim>\<open>ServeMetrics\<close> is
  not started.
\<close>

theorem GenerateAndServeCRMetrics_first_error:
  assumes "ns \<noteq> []"
  shows "(getAPIResourceLists env cfg w = ((partial, Some e), w1) \<longrightarrow>
            GenerateAndServeCRMetrics env cfg ns gvks host port w =
              (Some e, fetchEvents cfg, w1))
       \<and> (getAPIResourceLists env cfg w = ((cat, None), w1)
            \<and> gvkLoop env cfg ns cat pre [] w1 = (None, allStores, evs, w2)
            \<and> newClientForGVK env cfg cat (GroupVersion_String g) (Kind g) w2 = ((dclient, err), w3)
            \<and> (err = Some e \<or> err = None \<and> snd (isNamespaced g cat) = Some e)
          \<longrightarrow>
            GenerateAndServeCRMetrics env cfg ns (pre @ g # post) host port w =
              (Some e, fetchEvents cfg @ evs @ clientEvents cfg cat g, w3)
            \<and> length (filter isStoreCall (fetchEvents cfg @ evs @ clientEvents cfg cat g)) = length pre
            \<and> (\<forall>x\<in>set (fetchEvents cfg @ evs @ clientEvents cfg cat g). \<not> isServe x))"
proof (intro conjI impI)
  assume "getAPIResourceLists env cfg w = ((partial, Some e), w1)"
  with assms show "GenerateAndServeCRMetrics env cfg ns gvks host port w =
              (Some e, fetchEvents cfg, w1)"
    by (rule entry_fetch_error)
next
  assume a: "getAPIResourceLists env cfg w = ((cat, None), w1)
            \<and> gvkLoop env cfg ns cat pre [] w1 = (None, allStores, evs, w2)
            \<and> newClientForGVK env cfg cat (GroupVersion_String g) (Kind g) w2 = ((dclient, err), w3)
            \<and> (err = Some e \<or> err = None \<and> snd (isNamespaced g cat) = Some e)"
  then have f: "getAPIResourceLists env cfg w = ((cat, None), w1)"
    and l: "gvkLoop env cfg ns cat pre [] w1 = (None, allStores, evs, w2)"
    and c: "newClientForGVK env cfg cat (GroupVersion_String g) (Kind g) w2 = ((dclient, err), w3)"
    and e: "err = Some e \<or> err = None \<and> snd (isNamespaced g cat) = Some e"
    by simp_all
  have b: "gvkBody env cfg ns cat g w2 = (Some e, [], clientEvents cfg cat g, w3)"
    using c e by (rule gvkBody_error_at)
  have "gvkLoop env cfg ns cat (pre @ g # post) [] w1 =
          (Some e, allStores, evs @ clientEvents cfg cat g, w3)"
    using l b by (rule gvkLoop_fail_at)
  with assms f show "GenerateAndServeCRMetrics env cfg ns (pre @ g # post) host port w =
              (Some e, fetchEvents cfg @ evs @ clientEvents cfg cat g, w3)"
    by (rule entry_loop_error)
  from gvkLoop_events[OF l] have le: "length (filter isStoreCall evs) = length pre"
    and ns: "\<forall>x\<in>set evs. \<not> isServe x" by simp_all
  from le show "length (filter isStoreCall (fetchEvents cfg @ evs @ clientEvents cfg cat g)) = length pre"
    by (simp add: fetchEvents_plain clientEvents_plain)
  from ns show "\<forall>x\<in>set (fetchEvents cfg @ evs @ clientEvents cfg cat g). \<not> isServe x"
    using fetchEvents_plain(2)[of cfg] clientEvents_plain(2)[of cfg cat g] by auto
qed

theorem GenerateAndServeCRMetrics_first_error_witness:
  "GenerateAndServeCRMetrics sample_env ''unreachable'' [''team-a'', ''team-b'']
     [memcachedGVK, cachePoolGVK] ''0.0.0.0'' 8383 (0::nat) =
     (Some (LibraryError ''connection refused''), fetchEvents ''unreachable'', 1)
   \<and> GenerateAndServeCRMetrics sample_env ''https://10.0.0.1'' [''team-a'', ''team-b'']
     [memcachedGVK, brokenGVK, cachePoolGVK] ''0.0.0.0'' 8383 (0::nat) =
     (Some (LibraryError ''no client for Broken''),
      fetchEvents ''https://10.0.0.1'' @
      (clientEvents ''https://10.0.0.1'' sample_catalog memcachedGVK @
        [Call_NewNamespacedMetricsStores ''cache.example.com/v1alpha1 Memcached'' [''team-a'', ''team-b'']
           (GroupVersion_String memcachedGVK) (Kind memcachedGVK)
           (generateMetricFamilies (Map_unicode_ToLower sample_env) (Kind memcachedGVK)) [''team-a/Memcached'', ''team-b/Memcached'']]) @
      clientEvents ''https://10.0.0.1'' sample_catalog brokenGVK,
      5)
   \<and> GenerateAndServeCRMetrics sample_env ''https://10.0.0.1'' [''team-a'', ''team-b'']
     [memcachedGVK, ghostGVK, cachePoolGVK] ''0.0.0.0'' 8383 (0::nat) =
     (Some (ErrorsNew ''unable to find type: cache.example.com/v1alpha1, Kind=Ghost in server''),
      fetchEvents ''https://10.0.0.1'' @
      (clientEvents ''https://10.0.0.1'' sample_catalog memcachedGVK @
        [Call_NewNamespacedMetricsStores ''cache.example.com/v1alpha1 Memcached'' [''team-a'', ''team-b'']
           (GroupVersion_String memcachedGVK) (Kind memcachedGVK)
           (generateMetricFamilies (Map_unicode_ToLower sample_env) (Kind memcachedGVK)) [''team-a/Memcached'', ''team-b/Memcached'']]) @
      clientEvents ''https://10.0.0.1'' sample_catalog ghostGVK,
      5)"
proof -
  have ns: "[''team-a'', ''team-b''] \<noteq> ([]::string list)" by simp
  note fe = GenerateAndServeCRMetrics_first_error[OF ns]
  have a: "GenerateAndServeCRMetrics sample_env ''unreachable'' [''team-a'', ''team-b'']
     [memcachedGVK, cachePoolGVK] ''0.0.0.0'' 8383 (0::nat) =
     (Some (LibraryError ''connection refused''), fetchEvents ''unreachable'', 1)"
    using fe[THEN conjunct1, THEN mp, OF sample_fetch(1)] by simp
  have hb: "getAPIResourceLists sample_env ''https://10.0.0.1'' (0::nat) = ((sample_catalog, None), Suc 0)
      \<and> gvkLoop sample_env ''https://10.0.0.1'' [''team-a'', ''team-b''] sample_catalog [memcachedGVK] [] (Suc 0) =
          (None, [[''team-a/Memcached'', ''team-b/Memcached'']],
           clientEvents ''https://10.0.0.1'' sample_catalog memcachedGVK @
        [Call_NewNamespacedMetricsStores ''cache.example.com/v1alpha1 Memcached'' [''team-a'', ''team-b'']
           (GroupVersion_String memcachedGVK) (Kind memcachedGVK)
           (generateMetricFamilies (Map_unicode_ToLower sample_env) (Kind memcachedGVK)) [''team-a/Memcached'', ''team-b/Memcached'']],
           Suc (Suc (Suc (Suc 0))))
      \<and> newClientForGVK sample_env ''https://10.0.0.1'' sample_catalog (GroupVersion_String brokenGVK)
           (Kind brokenGVK) (Suc (Suc (Suc (Suc 0)))) =
           (([], Some (LibraryError ''no client for Broken'')), Suc (Suc (Suc (Suc (Suc 0)))))
      \<and> (Some (LibraryError ''no client for Broken'') = Some (LibraryError ''no client for Broken'') \<or>
          Some (LibraryError ''no client for Broken'') = None \<and>
          snd (isNamespaced brokenGVK sample_catalog) = Some (LibraryError ''no client for Broken''))"
    by (simp add: sample_fetch sample_body_memcached sample_client)
  have b: "GenerateAndServeCRMetrics sample_env ''https://10.0.0.1'' [''team-a'', ''team-b'']
     [memcachedGVK, brokenGVK, cachePoolGVK] ''0.0.0.0'' 8383 (0::nat) =
     (Some (LibraryError ''no client for Broken''),
      fetchEvents ''https://10.0.0.1'' @
      (clientEvents ''https://10.0.0.1'' sample_catalog memcachedGVK @
        [Call_NewNamespacedMetricsStores ''cache.example.com/v1alpha1 Memcached'' [''team-a'', ''team-b'']
           (GroupVersion_String memcachedGVK) (Kind memcachedGVK)
           (generateMetricFamilies (Map_unicode_ToLower sample_env) (Kind memcachedGVK)) [''team-a/Memcached'', ''team-b/Memcached'']]) @
      clientEvents ''https://10.0.0.1'' sample_catalog brokenGVK,
      5)"
    using fe[THEN conjunct2, THEN mp, OF hb, THEN conjunct1, of "[cachePoolGVK]" "''0.0.0.0''" 8383]
    by (simp add: eval_nat_numeral)
  have hc: "getAPIResourceLists sample_env ''https://10.0.0.1'' (0::nat) = ((sample_catalog, None), Suc 0)
      \<and> gvkLoop sample_env ''https://10.0.0.1'' [''team-a'', ''team-b''] sample_catalog [memcachedGVK] [] (Suc 0) =
          (None, [[''team-a/Memcached'', ''team-b/Memcached'']],
           clientEvents ''https://10.0.0.1'' sample_catalog memcachedGVK @
        [Call_NewNamespacedMetricsStores ''cache.example.com/v1alpha1 Memcached'' [''team-a'', ''team-b'']
           (GroupVersion_String memcachedGVK) (Kind memcachedGVK)
           (generateMetricFamilies (Map_unicode_ToLower sample_env) (Kind memcachedGVK)) [''team-a/Memcached'', ''team-b/Memcached'']],
           Suc (Suc (Suc (Suc 0))))
      \<and> newClientForGVK sample_env ''https://10.0.0.1'' sample_catalog (GroupVersion_String ghostGVK)
           (Kind ghostGVK) (Suc (Suc (Suc (Suc 0)))) =
           ((''cache.example.com/v1alpha1 Ghost'', None), Suc (Suc (Suc (Suc (Suc 0)))))
      \<and> (None = Some (ErrorsNew ''unable to find type: cache.example.com/v1alpha1, Kind=Ghost in server'') \<or>
          None = (None::error option) \<and>
          snd (isNamespaced ghostGVK sample_catalog) =
            Some (ErrorsNew ''unable to find type: cache.example.com/v1alpha1, Kind=Ghost in server''))"
    by (simp add: sample_fetch sample_body_memcached sample_client sample_scope)
  have c: "GenerateAndServeCRMetrics sample_env ''https://10.0.0.1'' [''team-a'', ''team-b'']
     [memcachedGVK, ghostGVK, cachePoolGVK] ''0.0.0.0'' 8383 (0::nat) =
     (Some (ErrorsNew ''unable to find type: cache.example.com/v1alpha1, Kind=Ghost in server''),
      fetchEvents ''https://10.0.0.1'' @
      (clientEvents ''https://10.0.0.1'' sample_catalog memcachedGVK @
        [Call_NewNamespacedMetricsStores ''cache.example.com/v1alpha1 Memcached'' [''team-a'', ''team-b'']
           (GroupVersion_String memcachedGVK) (Kind memcachedGVK)
           (generateMetricFamilies (Map_unicode_ToLower sample_env) (Kind memcachedGVK)) [''team-a/Memcached'', ''team-b/Memcached'']]) @
      clientEvents ''https://10.0.0.1'' sample_catalog ghostGVK,
      5)"
    using fe[THEN conjunct2, THEN mp, OF hc, THEN conjunct1, of "[cachePoolGVK]" "''0.0.0.0''" 8383]
    by (simp add: eval_nat_numeral)
  from a b c show ?thesis by (intro conjI)
qed

text \<open>
  Claim C6. An error from \<^verbatim>\<open>getAPIResourceLists\<close>, or from \<^verbatim>\<open>newClientForGVK\<close> for the first
  GVK that fails, is the very value \<^verbatim>\<open>GenerateAndServeCRMetrics\<close> returns.
\<close>

theorem GenerateAndServeCRMetrics_library_error_unchanged:
  assumes "ns \<noteq> []"
  shows "(getAPIResourceLists env cfg w = ((partial, Some e), w1) \<longrightarrow>
            fst (GenerateAndServeCRMetrics env cfg ns gvks host port w) = Some e)
       \<and> (getAPIResourceLists env cfg w = ((cat, None), w1)
            \<and> gvkLoop env cfg ns cat pre [] w1 = (None, allStores, evs, w2)
            \<and> newClientForGVK env cfg cat (GroupVersion_String g) (Kind g) w2 = ((dclient, Some e), w3)
          \<longrightarrow> fst (GenerateAndServeCRMetrics env cfg ns (pre @ g # post) host port w) = Some e)"
proof (intro conjI impI)
  assume "getAPIResourceLists env cfg w = ((partial, Some e), w1)"
  with assms have "GenerateAndServeCRMetrics env cfg ns gvks host port w = (Some e, fetchEvents cfg, w1)"
    by (rule entry_fetch_error)
  then show "fst (GenerateAndServeCRMetrics env cfg ns gvks host port w) = Some e" by simp
next
  assume a: "getAPIResourceLists env cfg w = ((cat, None), w1)
            \<and> gvkLoop env cfg ns cat pre [] w1 = (None, allStores, evs, w2)
            \<and> newClientForGVK env cfg cat (GroupVersion_String g) (Kind g) w2 = ((dclient, Some e), w3)"
  then have f: "getAPIResourceLists env cfg w = ((cat, None), w1)"
    and l: "gvkLoop env cfg ns cat pre [] w1 = (None, allStores, evs, w2)"
    and c: "newClientForGVK env cfg cat (GroupVersion_String g) (Kind g) w2 = ((dclient, Some e), w3)"
    by simp_all
  have b: "gvkBody env cfg ns cat g w2 = (Some e, [], clientEvents cfg cat g, w3)"
    using c by (rule gvkBody_client_error)
  have "gvkLoop env cfg ns cat (pre @ g # post) [] w1 =
          (Some e, allStores, evs @ clientEvents cfg cat g, w3)"
    using l b by (rule gvkLoop_fail_at)
  with assms f have "GenerateAndServeCRMetrics env cfg ns (pre @ g # post) host port w =
              (Some e, fetchEvents cfg @ evs @ clientEvents cfg cat g, w3)"
    by (rule entry_loop_error)
  then show "fst (GenerateAndServeCRMetrics env cfg ns (pre @ g # post) host port w) = Some e"
    by simp
qed

theorem GenerateAndServeCRMetrics_library_error_unchanged_witness:
  "snd (fst (getAPIResourceLists sample_env ''unreachable'' (0::nat))) =
     fst (GenerateAndServeCRMetrics sample_env ''unreachable'' [''team-a'', ''team-b'']
            [memcachedGVK, cachePoolGVK] ''0.0.0.0'' 8383 (0::nat))
   \<and> fst (GenerateAndServeCRMetrics sample_env ''unreachable'' [''team-a'', ''team-b'']
            [memcachedGVK, cachePoolGVK] ''0.0.0.0'' 8383 (0::nat)) =
       Some (LibraryError ''connection refused'')
   \<and> snd (fst (newClientForGVK sample_env ''https://10.0.0.1'' sample_catalog
                 (GroupVersion_String brokenGVK) (Kind brokenGVK) (4::nat))) =
     fst (GenerateAndServeCRMetrics sample_env ''https://10.0.0.1'' [''team-a'', ''team-b'']
            [memcachedGVK, brokenGVK, cachePoolGVK] ''0.0.0.0'' 8383 (0::nat))
   \<and> fst (GenerateAndServeCRMetrics sample_env ''https://10.0.0.1'' [''team-a'', ''team-b'']
            [memcachedGVK, brokenGVK, cachePoolGVK] ''0.0.0.0'' 8383 (0::nat)) =
       Some (LibraryError ''no client for Broken'')"
proof -
  have ns: "[''team-a'', ''team-b''] \<noteq> ([]::string list)" by simp
  note un = GenerateAndServeCRMetrics_library_error_unchanged[OF ns]
  have a: "fst (GenerateAndServeCRMetrics sample_env ''unreachable'' [''team-a'', ''team-b'']
            [memcachedGVK, cachePoolGVK] ''0.0.0.0'' 8383 (0::nat)) =
       Some (LibraryError ''connection refused'')"
    using un[THEN conjunct1, THEN mp, OF sample_fetch(1)] by simp
  have hb: "getAPIResourceLists sample_env ''https://10.0.0.1'' (0::nat) = ((sample_catalog, None), Suc 0)
      \<and> gvkLoop sample_env ''https://10.0.0.1'' [''team-a'', ''team-b''] sample_catalog [memcachedGVK] [] (Suc 0) =
          (None, [[''team-a/Memcached'', ''team-b/Memcached'']],
           clientEvents ''https://10.0.0.1'' sample_catalog memcachedGVK @
        [Call_NewNamespacedMetricsStores ''cache.example.com/v1alpha1 Memcached'' [''team-a'', ''team-b'']
           (GroupVersion_String memcachedGVK) (Kind memcachedGVK)
           (generateMetricFamilies (Map_unicode_ToLower sample_env) (Kind memcachedGVK)) [''team-a/Memcached'', ''team-b/Memcached'']],
           Suc (Suc (Suc (Suc 0))))
      \<and> newClientForGVK sample_env ''https://10.0.0.1'' sample_catalog (GroupVersion_String brokenGVK)
           (Kind brokenGVK) (Suc (Suc (Suc (Suc 0)))) =
           (([], Some (LibraryError ''no client for Broken'')), Suc (Suc (Suc (Suc (Suc 0)))))"
    by (simp add: sample_fetch sample_body_memcached sample_client)
  have b: "fst (GenerateAndServeCRMetrics sample_env ''https://10.0.0.1'' [''team-a'', ''team-b'']
            [memcachedGVK, brokenGVK, cachePoolGVK] ''0.0.0.0'' 8383 (0::nat)) =
       Some (LibraryError ''no client for Broken'')"
    using un[THEN conjunct2, THEN mp, OF hb, of "[cachePoolGVK]" "''0.0.0.0''" 8383] by simp
  show ?thesis
    by (simp add: a b sample_fetch sample_client)
qed



text \<open>
  Claim C8. On the success path (namespaces given, the catalog fetched, the collaborators
  succeeding for every input GVK) the run returns nil and ends with the start of
  \<^verbatim>\<open>ServeMetrics\<close> on the given host and port: that is its last event and the only start of
  the server, all the store calls, one for each input GVK, come before it, and it is
  handed the stores of those calls. Every run that returns nil is on the success path and
  has this shape. A run that returns an error does not start the server.
\<close>

theorem GenerateAndServeCRMetrics_serves_last:
  assumes "GenerateAndServeCRMetrics env cfg ns gvks host port w = (r, evs, w')"
  shows "(ns \<noteq> [] \<and> getAPIResourceLists env cfg w = ((cat, None), w1) \<and>
          collaboratorsSucceed env cfg ns cat gvks w1 \<longrightarrow>
            r = None \<and>
            (\<exists>before. evs = before @ [LogInfo ''Starting serving custom resource metrics'' [],
                                        Go_ServeMetrics (map storesOf (filter isStoreCall before)) host port]
               \<and> (\<forall>x\<in>set before. \<not> isServe x)
               \<and> length (filter isStoreCall before) = length gvks))
       \<and> (r = None \<longrightarrow>
            (\<exists>before. evs = before @ [LogInfo ''Starting serving custom resource metrics'' [],
                                        Go_ServeMetrics (map storesOf (filter isStoreCall before)) host port]
               \<and> (\<forall>x\<in>set before. \<not> isServe x)
               \<and> length (filter isStoreCall before) = length gvks))
       \<and> (r = None \<longrightarrow>
            ns \<noteq> [] \<and>
            (\<exists>c u. getAPIResourceLists env cfg w = ((c, None), u) \<and>
                   collaboratorsSucceed env cfg ns c gvks u))
       \<and> (r \<noteq> None \<longrightarrow> (\<forall>x\<in>set evs. \<not> isServe x))"
proof -
  note shape = entry_serves_last[OF assms]
  from assms have r: "fst (GenerateAndServeCRMetrics env cfg ns gvks host port w) = r" by simp
  have succ: "r = None"
    if "ns \<noteq> [] \<and> getAPIResourceLists env cfg w = ((cat, None), w1) \<and>
        collaboratorsSucceed env cfg ns cat gvks w1"
  proof -
    from that have n: "ns \<noteq> []" and f: "getAPIResourceLists env cfg w = ((cat, None), w1)"
      and s: "collaboratorsSucceed env cfg ns cat gvks w1" by simp_all
    from entry_None_iff[OF n f, of gvks host port] r s show ?thesis by simp
  qed
  have only: "ns \<noteq> [] \<and>
            (\<exists>c u. getAPIResourceLists env cfg w = ((c, None), u) \<and>
                   collaboratorsSucceed env cfg ns c gvks u)" if "r = None"
    using entry_None_only_if[of env cfg ns gvks host port w] r that by simp
  from shape succ only show ?thesis by blast
qed

theorem GenerateAndServeCRMetrics_serves_last_witness:
  "fst (GenerateAndServeCRMetrics sample_env ''https://10.0.0.1'' [''team-a'', ''team-b'']
        [memcachedGVK, cachePoolGVK] ''0.0.0.0'' 8383 (0::nat)) = None
   \<and> (\<exists>before.
      fst (snd (GenerateAndServeCRMetrics sample_env ''https://10.0.0.1'' [''team-a'', ''team-b'']
        [memcachedGVK, cachePoolGVK] ''0.0.0.0'' 8383 (0::nat))) =
        before @ [LogInfo ''Starting serving custom resource metrics'' [],
                  Go_ServeMetrics (map storesOf (filter isStoreCall before)) ''0.0.0.0'' 8383]
      \<and> (\<forall>x\<in>set before. \<not> isServe x)
      \<and> length (filter isStoreCall before) = length [memcachedGVK, cachePoolGVK])
   \<and> \<not> (\<exists>x\<in>set (fst (snd (GenerateAndServeCRMetrics sample_env ''https://10.0.0.1''
        [''team-a'', ''team-b''] [memcachedGVK, ghostGVK, cachePoolGVK] ''0.0.0.0'' 8383 (0::nat)))).
          isServe x)"
proof -
  let ?ok = "GenerateAndServeCRMetrics sample_env ''https://10.0.0.1'' [''team-a'', ''team-b'']
        [memcachedGVK, cachePoolGVK] ''0.0.0.0'' 8383 (0::nat)"
  let ?bad = "GenerateAndServeCRMetrics sample_env ''https://10.0.0.1'' [''team-a'', ''team-b'']
        [memcachedGVK, ghostGVK, cachePoolGVK] ''0.0.0.0'' 8383 (0::nat)"
  have ok: "?ok = (fst ?ok, fst (snd ?ok), snd (snd ?ok))" by simp
  have bad: "?bad = (fst ?bad, fst (snd ?bad), snd (snd ?bad))" by simp
  have h: "[''team-a'', ''team-b''] \<noteq> ([]::string list) \<and>
           getAPIResourceLists sample_env ''https://10.0.0.1'' (0::nat) = ((sample_catalog, None), Suc 0) \<and>
           collaboratorsSucceed sample_env ''https://10.0.0.1'' [''team-a'', ''team-b''] sample_catalog
             [memcachedGVK, cachePoolGVK] (Suc 0)"
    by (intro conjI sample_fetch(2) sample_success) simp
  from GenerateAndServeCRMetrics_serves_last[OF ok, THEN conjunct1, THEN mp, OF h]
  have a: "fst ?ok = None"
    and b: "\<exists>before. fst (snd ?ok) =
        before @ [LogInfo ''Starting serving custom resource metrics'' [],
                  Go_ServeMetrics (map storesOf (filter isStoreCall before)) ''0.0.0.0'' 8383]
      \<and> (\<forall>x\<in>set before. \<not> isServe x)
      \<and> length (filter isStoreCall before) = length [memcachedGVK, cachePoolGVK]"
    by blast+
  have rbad: "fst ?bad \<noteq> None" by (simp add: sample_run_ghost)
  from GenerateAndServeCRMetrics_serves_last[OF bad] rbad
  have c: "\<not> (\<exists>x\<in>set (fst (snd ?bad)). isServe x)" by blast
  from a b c show ?thesis by (intro conjI)
qed

end
